theory Spec2Isabelle
  imports Complex_Main "HOL-Library.Word" "HOL-Library.List_Lexorder"
begin

unbundle bit_operations_syntax

section \<open>Data model of \<^verbatim>\<open>src/audiosource.cpp\<close>\<close>

type_synonym byte = "8 word"

text \<open>
  The part of an \<^verbatim>\<open>AVFrame\<close> that the audio source reads: whether the sample format is
  planar (\<^verbatim>\<open>av_sample_fmt_is_planar\<close>), the bytes per sample of the format
  (\<^verbatim>\<open>av_get_bytes_per_sample\<close>), \<^verbatim>\<open>ch_layout.nb_channels\<close>, \<^verbatim>\<open>nb_samples\<close>,
  \<^verbatim>\<open>pts\<close>, the planes \<^verbatim>\<open>extended_data[]\<close> (\<^verbatim>\<open>data[0]\<close> is \<^verbatim>\<open>extended_data[0]\<close>) and
  the sizes of \<^verbatim>\<open>extended_buf[]\<close> (\<open>None\<close> for a null entry).
\<close>

record AVFrame =
  is_planar :: bool
  bytes_per_sample :: nat
  nb_channels :: nat
  nb_samples :: nat
  pts :: int
  extended_data :: "byte list list"
  extended_buf :: "nat option list"

datatype error = OutOfBounds | NullDeref | EmptyList | ShortRead | LengthError
  | AudioException | OutOfFuel

text \<open>
  The arithmetic of \<^verbatim>\<open>int64_t\<close>: the model computes in \<open>int\<close> and brings the result of
  every sum, difference and product of 64-bit values back into the range with \<open>wrap64\<close>,
  which is what two's complement addition, subtraction and multiplication do. One
  \<open>wrap64\<close> around an expression stands for wrapping after each of its operations.
\<close>

definition wrap64 :: "int \<Rightarrow> int" where
  "wrap64 x = (x + 2 ^ 63) mod 2 ^ 64 - 2 ^ 63"

subsection \<open>Frame hasher\<close>

text \<open>
  \<^verbatim>\<open>GetHash\<close> feeds the payload bytes to libavutil's \<^verbatim>\<open>av_hash\<close> with the algorithm
  \<^verbatim>\<open>"md5"\<close>. The digest is MD5 as RFC 1321 defines it: the message is padded with
  \<open>0x80\<close>, zeros and its bit length, split into little-endian 32-bit words, and each block
  of 16 words goes through 64 steps.
\<close>

definition md5_K :: "32 word list" where
  "md5_K = [3614090360, 3905402710, 606105819, 3250441966, 4118548399, 1200080426,
     2821735955, 4249261313, 1770035416, 2336552879, 4294925233, 2304563134, 1804603682,
     4254626195, 2792965006, 1236535329, 4129170786, 3225465664, 643717713, 3921069994,
     3593408605, 38016083, 3634488961, 3889429448, 568446438, 3275163606, 4107603335,
     1163531501, 2850285829, 4243563512, 1735328473, 2368359562, 4294588738, 2272392833,
     1839030562, 4259657740, 2763975236, 1272893353, 4139469664, 3200236656, 681279174,
     3936430074, 3572445317, 76029189, 3654602809, 3873151461, 530742520, 3299628645,
     4096336452, 1126891415, 2878612391, 4237533241, 1700485571, 2399980690, 4293915773,
     2240044497, 1873313359, 4264355552, 2734768916, 1309151649, 4149444226, 3174756917,
     718787259, 3951481745]"

definition md5_S :: "nat list" where
  "md5_S = [7, 12, 17, 22, 7, 12, 17, 22, 7, 12, 17, 22, 7, 12, 17, 22,
            5, 9, 14, 20, 5, 9, 14, 20, 5, 9, 14, 20, 5, 9, 14, 20,
            4, 11, 16, 23, 4, 11, 16, 23, 4, 11, 16, 23, 4, 11, 16, 23,
            6, 10, 15, 21, 6, 10, 15, 21, 6, 10, 15, 21, 6, 10, 15, 21]"

definition rotl32 :: "32 word \<Rightarrow> nat \<Rightarrow> 32 word" where
  "rotl32 w n = push_bit n w OR drop_bit (32 - n) w"

definition le32 :: "byte list \<Rightarrow> 32 word" where
  "le32 bs = foldr (\<lambda>b acc. ucast b OR push_bit 8 acc) bs 0"

definition bytes_le :: "nat \<Rightarrow> nat \<Rightarrow> byte list" where
  "bytes_le n v = map (\<lambda>k. of_nat ((v div 2 ^ (8 * k)) mod 256)) [0..<n]"

definition md5_pad :: "byte list \<Rightarrow> byte list" where
  "md5_pad m = m @ [128] @ replicate ((119 - length m mod 64) mod 64) 0
                 @ bytes_le 8 ((8 * length m) mod 2 ^ 64)"

fun md5_words :: "byte list \<Rightarrow> 32 word list" where
  "md5_words (a # b # c # d # r) = le32 [a, b, c, d] # md5_words r"
| "md5_words _ = []"

type_synonym md5_state = "32 word \<times> 32 word \<times> 32 word \<times> 32 word"

definition md5_step :: "32 word list \<Rightarrow> md5_state \<Rightarrow> nat \<Rightarrow> md5_state" where
  "md5_step M st i =
     (case st of (A, B, C, D) \<Rightarrow>
        let F = (if i < 16 then (B AND C) OR (NOT B AND D)
                 else if i < 32 then (D AND B) OR (NOT D AND C)
                 else if i < 48 then B XOR C XOR D
                 else C XOR (B OR NOT D));
            g = (if i < 16 then i
                 else if i < 32 then (5 * i + 1) mod 16
                 else if i < 48 then (3 * i + 5) mod 16
                 else (7 * i) mod 16)
        in (D, B + rotl32 (F + A + md5_K ! i + M ! g) (md5_S ! i), B, C))"

definition md5_block :: "md5_state \<Rightarrow> 32 word list \<Rightarrow> md5_state" where
  "md5_block st M =
     (case st of (a0, b0, c0, d0) \<Rightarrow>
        case foldl (md5_step M) st [0..<64] of (A, B, C, D) \<Rightarrow>
          (a0 + A, b0 + B, c0 + C, d0 + D))"

fun md5_blocks :: "nat \<Rightarrow> md5_state \<Rightarrow> 32 word list \<Rightarrow> md5_state" where
  "md5_blocks 0 st ws = st"
| "md5_blocks (Suc n) st ws = md5_blocks n (md5_block st (take 16 ws)) (drop 16 ws)"

definition av_md5 :: "byte list \<Rightarrow> byte list" where
  "av_md5 m =
     (let ws = md5_words (md5_pad m) in
      case md5_blocks (length ws div 16) (1732584193, 4023233417, 2562383102, 271733878) ws of
        (a, b, c, d) \<Rightarrow> concat (map (\<lambda>w. bytes_le 4 (unat w)) [a, b, c, d]))"

text \<open>
  The bytes \<^verbatim>\<open>GetHash\<close> passes to \<^verbatim>\<open>av_hash_update\<close>: for a planar format the first
  \<^verbatim>\<open>BytesPerSample * nb_samples\<close> bytes of each of the planes \<open>0 .. nb_channels - 1\<close>, one
  after the other; otherwise the first \<^verbatim>\<open>BytesPerSample * nb_channels * nb_samples\<close> bytes
  of \<^verbatim>\<open>data[0]\<close>. The decoder allocates every plane at least that long.
\<close>

definition hash_input :: "AVFrame \<Rightarrow> byte list" where
  "hash_input F =
     (if is_planar F then
        concat (map (\<lambda>p. take (bytes_per_sample F * nb_samples F) (extended_data F ! p))
                    [0..<nb_channels F])
      else take (bytes_per_sample F * nb_channels F * nb_samples F) (extended_data F ! 0))"

definition GetHash :: "AVFrame \<Rightarrow> byte list" where
  "GetHash F = av_md5 (hash_input F)"

subsection \<open>Frame cache\<close>

record CacheBlock =
  FrameNumber :: int
  Frame :: AVFrame
  BlockSize :: nat

record Cache =
  Data :: "CacheBlock list"
  Size :: nat
  MaxSize :: nat

text \<open>
  \<^verbatim>\<open>CacheBlock::CacheBlock\<close>: the size of a block is the sum of the sizes of the non-null
  \<^verbatim>\<open>extended_buf\<close> entries of the frame.
\<close>

definition new_CacheBlock :: "int \<Rightarrow> AVFrame \<Rightarrow> CacheBlock" where
  "new_CacheBlock n f =
     \<lparr>FrameNumber = n, Frame = f,
      BlockSize = sum_list (map (\<lambda>b. case b of None \<Rightarrow> 0 | Some sz \<Rightarrow> sz) (extended_buf f))\<rparr>"

text \<open>
  \<^verbatim>\<open>Cache::ApplyMaxSize\<close>: the list's front is the head of \<open>Data\<close>, its back the last
  element. \<^verbatim>\<open>Data.back()\<close> on an empty list is undefined behaviour, here \<open>Inl EmptyList\<close>.
  The \<^verbatim>\<open>size_t\<close> counters are byte counts of buffers that are live at the same time and
  are modelled as \<open>nat\<close>.
\<close>

function ApplyMaxSize :: "Cache \<Rightarrow> error + Cache" where
  "ApplyMaxSize c =
     (if Size c > MaxSize c then
        (if Data c = [] then Inl EmptyList
         else ApplyMaxSize (c\<lparr>Size := Size c - BlockSize (last (Data c)),
                                Data := butlast (Data c)\<rparr>))
      else Inr c)"
  by pat_completeness auto
termination
  by (relation "measure (\<lambda>c. length (Data c))") auto

declare ApplyMaxSize.simps [simp del]

definition Clear :: "Cache \<Rightarrow> Cache" where
  "Clear c = c\<lparr>Data := [], Size := 0\<rparr>"

definition SetMaxSize :: "Cache \<Rightarrow> nat \<Rightarrow> error + Cache" where
  "SetMaxSize c Bytes = ApplyMaxSize (c\<lparr>MaxSize := Bytes\<rparr>)"

text \<open>
  The scan \<^verbatim>\<open>for (Iter = Data.begin(); ...) if (Iter->FrameNumber == N)\<close> that both
  \<^verbatim>\<open>CacheFrame\<close> and \<^verbatim>\<open>Cache::GetFrame\<close> run: the first block with the frame number, and
  the list without that block.
\<close>

fun find_block :: "int \<Rightarrow> CacheBlock list \<Rightarrow> (CacheBlock \<times> CacheBlock list) option" where
  "find_block n [] = None"
| "find_block n (b # bs) =
     (if FrameNumber b = n then Some (b, bs)
      else (case find_block n bs of None \<Rightarrow> None | Some (x, r) \<Rightarrow> Some (x, b # r)))"

definition CacheFrame :: "Cache \<Rightarrow> int \<Rightarrow> AVFrame \<Rightarrow> error + Cache" where
  "CacheFrame c n f =
     (let c1 = (case find_block n (Data c) of
                  None \<Rightarrow> c
                | Some (b, r) \<Rightarrow> c\<lparr>Size := Size c - BlockSize b, Data := r\<rparr>);
          nb = new_CacheBlock n f
      in ApplyMaxSize (c1\<lparr>Data := nb # Data c1, Size := Size c1 + BlockSize nb\<rparr>))"

text \<open>\<^verbatim>\<open>Cache::GetFrame\<close>: on a hit the block is spliced to the front and its frame cloned.\<close>

definition Cache_GetFrame :: "Cache \<Rightarrow> int \<Rightarrow> AVFrame option \<times> Cache" where
  "Cache_GetFrame c n =
     (case find_block n (Data c) of
        None \<Rightarrow> (None, c)
      | Some (b, r) \<Rightarrow> (Some (Frame b), c\<lparr>Data := b # r\<rparr>))"

text \<open>The invariant of the cache: the counter is the sum of the block sizes, one block per frame number.\<close>

definition cache_inv :: "Cache \<Rightarrow> bool" where
  "cache_inv c \<longleftrightarrow>
     Size c = sum_list (map BlockSize (Data c)) \<and> distinct (map FrameNumber (Data c))"

text \<open>
  What eviction leaves of a cache: a prefix of the blocks, counted from the front, and the
  longest one within the bound.
\<close>

definition evicted_to :: "Cache \<Rightarrow> Cache \<Rightarrow> bool" where
  "evicted_to c c1 \<longleftrightarrow>
     (\<exists>k \<le> length (Data c). Data c1 = take k (Data c)
        \<and> (\<forall>j. k < j \<and> j \<le> length (Data c)
              \<longrightarrow> MaxSize c < sum_list (map BlockSize (take j (Data c)))))"

subsection \<open>Track index\<close>

record FrameInfo =
  PTS :: int
  Start :: int
  Length :: int
  Hash :: "byte list"

definition AV_NOPTS_VALUE :: int where
  "AV_NOPTS_VALUE = - (2 ^ 63)"

definition INT64_MIN :: int where
  "INT64_MIN = - (2 ^ 63)"

subsection \<open>Decoder handle\<close>

text \<open>
  The container as libavformat and libavcodec present it: the frames a freshly opened
  decoder delivers one after the other, and for a timestamp given to \<^verbatim>\<open>av_seek_frame\<close>
  either failure (\<open>None\<close>) or the frames the decoder delivers after that seek. An
  inaccurate seek is one whose frames are not the suffix of \<open>linear_decode\<close> that the
  timestamp names.
\<close>

record media =
  linear_decode :: "AVFrame list"
  seek_decode :: "int \<Rightarrow> AVFrame list option"

record LWAudioDecoder =
  pending :: "AVFrame list"
  CurrentFrame :: int
  CurrentSample :: int
  Seeked :: bool
  DecodeSuccess :: bool

text \<open>
  Modelled from the spec: the member initialisers of \<^verbatim>\<open>LWAudioDecoder\<close> are in
  \<^verbatim>\<open>audiosource.h\<close>; a new decoder is at ordinal 0 and sample 0, has never seeked and
  has more frames available.
\<close>

definition new_LWAudioDecoder :: "media \<Rightarrow> LWAudioDecoder" where
  "new_LWAudioDecoder m =
     \<lparr>pending = linear_decode m, CurrentFrame = 0, CurrentSample = 0, Seeked = False,
      DecodeSuccess = True\<rparr>"

text \<open>\<^verbatim>\<open>LWAudioDecoder::GetNextFrame\<close>, with \<^verbatim>\<open>DecodeNextFrame\<close> taking the next pending frame.\<close>

definition GetNextFrame :: "LWAudioDecoder \<Rightarrow> AVFrame option \<times> LWAudioDecoder" where
  "GetNextFrame d =
     (if DecodeSuccess d then
        (case pending d of
           [] \<Rightarrow> (None, d\<lparr>DecodeSuccess := False\<rparr>)
         | f # fs \<Rightarrow> (Some f, d\<lparr>pending := fs, CurrentFrame := wrap64 (CurrentFrame d + 1),
                                CurrentSample := wrap64 (CurrentSample d + int (nb_samples f))\<rparr>))
      else (None, d))"

text \<open>\<^verbatim>\<open>LWAudioDecoder::SkipFrames\<close>: the loop \<^verbatim>\<open>while (Count-- > 0)\<close> on the remaining count.\<close>

fun SkipFrames_loop :: "nat \<Rightarrow> LWAudioDecoder \<Rightarrow> LWAudioDecoder" where
  "SkipFrames_loop 0 d = d"
| "SkipFrames_loop (Suc k) d =
     (if DecodeSuccess d then
        (case pending d of
           [] \<Rightarrow> SkipFrames_loop k (d\<lparr>DecodeSuccess := False\<rparr>)
         | f # fs \<Rightarrow> SkipFrames_loop k
                      (d\<lparr>pending := fs, CurrentFrame := wrap64 (CurrentFrame d + 1),
                         CurrentSample := wrap64 (CurrentSample d + int (nb_samples f))\<rparr>))
      else d)"

definition SkipFrames :: "LWAudioDecoder \<Rightarrow> int \<Rightarrow> LWAudioDecoder" where
  "SkipFrames d Count = SkipFrames_loop (nat Count) d"

definition Seek :: "media \<Rightarrow> LWAudioDecoder \<Rightarrow> int \<Rightarrow> bool \<times> LWAudioDecoder" where
  "Seek m d P =
     (case seek_decode m P of
        None \<Rightarrow> (False, d\<lparr>Seeked := True, CurrentFrame := INT64_MIN,
                           CurrentSample := INT64_MIN, DecodeSuccess := False\<rparr>)
      | Some fs \<Rightarrow> (True, d\<lparr>Seeked := True, CurrentFrame := INT64_MIN,
                             CurrentSample := INT64_MIN, DecodeSuccess := True, pending := fs\<rparr>))"

definition SetFrameNumber :: "LWAudioDecoder \<Rightarrow> int \<Rightarrow> int \<Rightarrow> LWAudioDecoder" where
  "SetFrameNumber d N SampleNumber = d\<lparr>CurrentFrame := N, CurrentSample := SampleNumber\<rparr>"

subsection \<open>The audio source\<close>

text \<open>
  The members of \<^verbatim>\<open>BestAudioSource\<close> that the functions below read or write. \<open>NumFrames\<close>,
  \<open>NumSamples\<close>, \<open>BytesPerSample\<close> and \<open>Channels\<close> are the fields of \<^verbatim>\<open>AP\<close>, \<open>Frames\<close>
  is \<^verbatim>\<open>TrackIndex.Frames\<close>. \<open>LAVFOptions\<close> is a \<^verbatim>\<open>std::map\<close>, kept as the list of its
  entries in key order. The 64-bit integers are modelled as \<open>int\<close>, with \<open>wrap64\<close> where
  the code computes with them.
\<close>

record BestAudioSource =
  Source :: media
  AudioTrack :: int
  VariableFormat :: bool
  LAVFOptions :: "(byte list \<times> byte list) list"
  DrcScale :: real
  NumFrames :: int
  NumSamples :: int
  BytesPerSample :: int
  Channels :: int
  Frames :: "FrameInfo list"
  FrameCache :: Cache
  Decoders :: "LWAudioDecoder option list"
  DecoderLastUse :: "nat list"
  DecoderSequenceNum :: nat
  PreRoll :: int
  LinearMode :: bool
  BadSeekLocations :: "int set"

text \<open>
  Modelled from the spec: the constants \<^verbatim>\<open>MaxVideoSources\<close> (the capacity of the decoder
  array, \<open>MaxDecoders\<close>, default 3) and \<^verbatim>\<open>RetrySeekAttempts\<close> (3) are declared in
  \<^verbatim>\<open>audiosource.h\<close>.
\<close>

definition MaxVideoSources :: nat where
  "MaxVideoSources = 3"

definition RetrySeekAttempts :: nat where
  "RetrySeekAttempts = 3"

definition SetMaxCacheSize :: "BestAudioSource \<Rightarrow> nat \<Rightarrow> error + BestAudioSource" where
  "SetMaxCacheSize s Bytes =
     (case SetMaxSize (FrameCache s) Bytes of
        Inl e \<Rightarrow> Inl e
      | Inr c \<Rightarrow> Inr (s\<lparr>FrameCache := c\<rparr>))"

definition SetSeekPreRoll :: "BestAudioSource \<Rightarrow> int \<Rightarrow> BestAudioSource" where
  "SetSeekPreRoll s n = s\<lparr>PreRoll := max n 0\<rparr>"

text \<open>
  \<^verbatim>\<open>SetLinearMode\<close>. Its first statement is \<^verbatim>\<open>assert(!LinearMode)\<close>; the body runs under
  \<^verbatim>\<open>if (!LinearMode)\<close> all the same.
\<close>

definition SetLinearMode :: "BestAudioSource \<Rightarrow> BestAudioSource" where
  "SetLinearMode s =
     (if \<not> LinearMode s then
        s\<lparr>LinearMode := True, FrameCache := Clear (FrameCache s),
          Decoders := replicate MaxVideoSources None\<rparr>
      else s)"

text \<open>
  \<^verbatim>\<open>GetSeekFrame\<close>: the loop \<^verbatim>\<open>for (i = N - PreRoll; i >= 100; i--)\<close>. Reading
  \<^verbatim>\<open>TrackIndex.Frames[i]\<close> past the end of the vector is \<open>Inl OutOfBounds\<close>.
\<close>

function GetSeekFrame_loop :: "BestAudioSource \<Rightarrow> int \<Rightarrow> error + int" where
  "GetSeekFrame_loop s i =
     (if i \<ge> 100 then
        (if i \<ge> int (length (Frames s)) then Inl OutOfBounds
         else if PTS (Frames s ! nat i) \<noteq> AV_NOPTS_VALUE \<and> i \<notin> BadSeekLocations s then Inr i
         else GetSeekFrame_loop s (i - 1))
      else Inr (- 1))"
  by pat_completeness auto
termination
  by (relation "measure (\<lambda>(s, i). nat (i - 99))") auto

declare GetSeekFrame_loop.simps [simp del]

definition GetSeekFrame :: "BestAudioSource \<Rightarrow> int \<Rightarrow> error + int" where
  "GetSeekFrame s N = GetSeekFrame_loop s (wrap64 (N - PreRoll s))"

subsection \<open>Seek-and-verify engine\<close>

text \<open>
  The two scans over the decoder slots. \<open>scan_slots\<close> is the loop that
  \<^verbatim>\<open>GetFrameInternal\<close> and \<^verbatim>\<open>GetFrameLinearInternal\<close> share: \<^verbatim>\<open>EmptySlot\<close> ends as the
  last empty slot (or \<open>-1\<close>), \<^verbatim>\<open>LeastRecentlyUsed\<close> starts at 0 and moves to an occupied
  slot with a smaller \<^verbatim>\<open>DecoderLastUse\<close>. \<open>select_linear\<close> is the \<^verbatim>\<open>Index\<close> that
  \<^verbatim>\<open>GetFrameLinearInternal\<close> computes: the occupied slot at or before \<open>N\<close> with the
  largest frame number, never-seeked ones only under \<^verbatim>\<open>ForceUnseeked\<close>.
\<close>

definition scan_slots :: "BestAudioSource \<Rightarrow> int \<times> int" where
  "scan_slots s =
     foldl (\<lambda>(EmptySlot, LeastRecentlyUsed) i.
              (if Decoders s ! i = None then int i else EmptySlot,
               if Decoders s ! i \<noteq> None
                  \<and> DecoderLastUse s ! i < DecoderLastUse s ! nat LeastRecentlyUsed
               then int i else LeastRecentlyUsed))
           (- 1, 0) [0..<MaxVideoSources]"

definition select_linear :: "BestAudioSource \<Rightarrow> int \<Rightarrow> bool \<Rightarrow> int" where
  "select_linear s N ForceUnseeked =
     foldl (\<lambda>Index i.
              case Decoders s ! i of
                None \<Rightarrow> Index
              | Some d \<Rightarrow>
                  if (\<not> ForceUnseeked \<or> \<not> Seeked d) \<and> CurrentFrame d \<le> N
                     \<and> (Index < 0
                        \<or> (case Decoders s ! nat Index of
                              None \<Rightarrow> False
                            | Some d0 \<Rightarrow> CurrentFrame d0 < CurrentFrame d))
                  then int i else Index)
           (- 1) [0..<MaxVideoSources]"

text \<open>
  The head of \<^verbatim>\<open>GetFrameLinearInternal\<close>: the chosen slot, a new decoder in it when no
  existing one qualifies, and the use counter.
\<close>

definition linear_decoder_slot :: "BestAudioSource \<Rightarrow> int \<Rightarrow> bool \<Rightarrow> BestAudioSource \<times> nat" where
  "linear_decoder_slot s N ForceUnseeked =
     (let Index0 = select_linear s N ForceUnseeked;
          (EmptySlot, LeastRecentlyUsed) = scan_slots s;
          Index = nat (if Index0 < 0
                       then (if EmptySlot \<ge> 0 then EmptySlot else LeastRecentlyUsed)
                       else Index0);
          ds = (if Index0 < 0
                then (Decoders s)[Index := Some (new_LWAudioDecoder (Source s))]
                else Decoders s)
      in (s\<lparr>Decoders := ds,
            DecoderLastUse := (DecoderLastUse s)[Index := DecoderSequenceNum s],
            DecoderSequenceNum := DecoderSequenceNum s + 1\<rparr>, Index))"

text \<open>The slot \<^verbatim>\<open>GetFrameInternal\<close> prepares for seeking.\<close>

definition seek_decoder_slot :: "BestAudioSource \<Rightarrow> BestAudioSource \<times> nat" where
  "seek_decoder_slot s =
     (let (EmptySlot, LeastRecentlyUsed) = scan_slots s;
          Index = nat (if EmptySlot \<ge> 0 then EmptySlot else LeastRecentlyUsed);
          ds = (if Decoders s ! Index = None
                then (Decoders s)[Index := Some (new_LWAudioDecoder (Source s))]
                else Decoders s)
      in (s\<lparr>Decoders := ds,
            DecoderLastUse := (DecoderLastUse s)[Index := DecoderSequenceNum s],
            DecoderSequenceNum := DecoderSequenceNum s + 1\<rparr>, Index))"

definition nearby_decoder :: "BestAudioSource \<Rightarrow> int \<Rightarrow> int \<Rightarrow> bool" where
  "nearby_decoder s N SeekFrame =
     list_ex (\<lambda>i. case Decoders s ! i of
                    None \<Rightarrow> False
                  | Some d \<Rightarrow> CurrentFrame d \<le> N \<and> CurrentFrame d \<ge> SeekFrame)
             [0..<MaxVideoSources]"

text \<open>
  \<^verbatim>\<open>SeekAndDecode\<close> and \<^verbatim>\<open>GetFrameLinearInternal\<close> call each other and loop. The model
  runs them as a machine: a \<open>call\<close> is a function about to be entered or a loop about to
  start its next lap, with the values of its parameters and locals, and \<open>engine_step\<close>
  runs the code up to the next call, lap or return. The declarations with the default
  arguments are in \<^verbatim>\<open>audiosource.h\<close>; \<^verbatim>\<open>GetFrameLinearInternal(N)\<close> is taken as
  \<^verbatim>\<open>GetFrameLinearInternal(N, -1, 0, false)\<close>, the values that the explicit call
  \<^verbatim>\<open>GetFrameLinearInternal(N, -1, 0, true)\<close> passes, and \<^verbatim>\<open>SeekAndDecode\<close> starts at depth 0.
\<close>

datatype call =
    Return "AVFrame option" BestAudioSource
  | CallLinear BestAudioSource int nat bool
  | CallSeek BestAudioSource int nat nat
  | LapSeek BestAudioSource int nat nat "(AVFrame \<times> byte list) list"
  | LapLinear BestAudioSource int nat nat "AVFrame option"

text \<open>
  The block that follows each failed attempt: with attempts left, seek at least 100 frames
  earlier, or decode linearly from a reset slot when no such seek point exists; without,
  latch linear mode. \<open>force\<close> is the \<^verbatim>\<open>ForceUnseeked\<close> argument of the call after the latch:
  false in \<^verbatim>\<open>SeekAndDecode\<close>, true in \<^verbatim>\<open>GetFrameLinearInternal\<close>.
\<close>

definition retry_seek :: "BestAudioSource \<Rightarrow> int \<Rightarrow> nat \<Rightarrow> nat \<Rightarrow> bool \<Rightarrow> error + call" where
  "retry_seek s SeekFrame Index Depth force =
     (if Depth < RetrySeekAttempts then
        (case GetSeekFrame s (wrap64 (SeekFrame - 100)) of
           Inl e \<Rightarrow> Inl e
         | Inr SeekFrameNext \<Rightarrow>
             if SeekFrameNext < 100
             then Inr (CallLinear (s\<lparr>Decoders := (Decoders s)[Index := None]\<rparr>) (- 1) 0 False)
             else Inr (CallSeek s SeekFrameNext Index (Depth + 1)))
      else Inr (CallLinear (SetLinearMode s) (- 1) 0 force))"

definition mark_bad :: "BestAudioSource \<Rightarrow> int \<Rightarrow> BestAudioSource" where
  "mark_bad s SeekFrame = s\<lparr>BadSeekLocations := insert SeekFrame (BadSeekLocations s)\<rparr>"

text \<open>\<^verbatim>\<open>SeekAndDecode\<close> up to its loop.\<close>

definition SeekAndDecode_start :: "BestAudioSource \<Rightarrow> int \<Rightarrow> nat \<Rightarrow> nat \<Rightarrow> error + call" where
  "SeekAndDecode_start s SeekFrame Index Depth =
     (if SeekFrame < 0 \<or> SeekFrame \<ge> int (length (Frames s)) then Inl OutOfBounds
      else case Decoders s ! Index of
        None \<Rightarrow> Inl NullDeref
      | Some d \<Rightarrow>
          (let (ok, d1) = Seek (Source s) d (PTS (Frames s ! nat SeekFrame))
           in if \<not> ok
              then Inr (CallLinear
                          (SetLinearMode (s\<lparr>Decoders := (Decoders s)[Index := Some d1]\<rparr>))
                          (- 1) 0 False)
              else Inr (LapSeek
                          (s\<lparr>Decoders :=
                               (Decoders s)[Index := Some (SkipFrames d1 (PreRoll s div 2))]\<rparr>)
                          SeekFrame Index Depth [])))"

text \<open>
  The candidate positions: with a frame, every \<open>i\<close> from 0 to
  \<^verbatim>\<open>Frames.size() - MatchFrames.size()\<close> at which all the buffered hashes agree with the
  index; without, that last position alone. The difference is of \<^verbatim>\<open>size_t\<close>: with more
  buffered frames than index entries it wraps and the loop reads past the vector.
\<close>

definition hash_match :: "FrameInfo list \<Rightarrow> byte list list \<Rightarrow> nat \<Rightarrow> bool" where
  "hash_match fs hs i = (map Hash (take (length hs) (drop i fs)) = hs)"

definition find_matches :: "FrameInfo list \<Rightarrow> byte list list \<Rightarrow> bool \<Rightarrow> error + nat list" where
  "find_matches fs hs got =
     (if length hs > length fs then Inl OutOfBounds
      else if got then Inr (filter (hash_match fs hs) [0..<Suc (length fs - length hs)])
      else Inr (filter (hash_match fs hs) [length fs - length hs]))"

text \<open>The loop that caches the buffered frames from \<^verbatim>\<open>N - PreRoll\<close> on and keeps frame \<open>N\<close>.\<close>

fun cache_matched ::
  "Cache \<Rightarrow> int \<Rightarrow> int \<Rightarrow> int \<Rightarrow> AVFrame list \<Rightarrow> AVFrame option
     \<Rightarrow> error + (AVFrame option \<times> Cache)" where
  "cache_matched c N pr fn [] RetFrame = Inr (RetFrame, c)"
| "cache_matched c N pr fn (f # fs) RetFrame =
     (if fn \<ge> wrap64 (N - pr) then
        (case CacheFrame c fn f of
           Inl e \<Rightarrow> Inl e
         | Inr c1 \<Rightarrow> cache_matched c1 N pr (fn + 1) fs (if fn = N then Some f else RetFrame))
      else cache_matched c N pr (fn + 1) fs RetFrame)"

text \<open>
  The branch \<^verbatim>\<open>Matches.size() == 1\<close>. \<^verbatim>\<open>TrackIndex.Frames[MatchedN + MatchFrames.size()]\<close>
  is read with \<^verbatim>\<open>operator[]\<close>: past the last entry it is \<open>Inl OutOfBounds\<close>.
\<close>

definition identified ::
  "BestAudioSource \<Rightarrow> int \<Rightarrow> int \<Rightarrow> nat \<Rightarrow> LWAudioDecoder \<Rightarrow> nat \<Rightarrow> AVFrame list
     \<Rightarrow> error + call" where
  "identified s N SeekFrame Index d MatchedN fs =
     (if MatchedN + length fs \<ge> length (Frames s) then Inl OutOfBounds
      else
        let d1 = SetFrameNumber d (int (MatchedN + length fs))
                   (Start (Frames s ! (MatchedN + length fs)));
            s1 = s\<lparr>Decoders := (Decoders s)[Index := Some d1]\<rparr>
        in case cache_matched (FrameCache s1) N (PreRoll s1) (int MatchedN) fs None of
             Inl e \<Rightarrow> Inl e
           | Inr (RetFrame, c) \<Rightarrow>
               (case RetFrame of
                  Some f \<Rightarrow> Inr (Return (Some f) (s1\<lparr>FrameCache := c\<rparr>))
                | None \<Rightarrow> Inr (CallLinear (s1\<lparr>FrameCache := c\<rparr>) SeekFrame 0 False)))"

text \<open>One lap of the \<^verbatim>\<open>while (true)\<close> loop of \<^verbatim>\<open>SeekAndDecode\<close>.\<close>

definition SeekAndDecode_lap ::
  "BestAudioSource \<Rightarrow> int \<Rightarrow> int \<Rightarrow> nat \<Rightarrow> nat \<Rightarrow> (AVFrame \<times> byte list) list
     \<Rightarrow> error + call" where
  "SeekAndDecode_lap s N SeekFrame Index Depth MatchFrames =
     (case Decoders s ! Index of
        None \<Rightarrow> Inl NullDeref
      | Some d \<Rightarrow>
          (let (F, d1) = GetNextFrame d;
               s1 = s\<lparr>Decoders := (Decoders s)[Index := Some d1]\<rparr>
           in if F = None \<and> MatchFrames = []
              then retry_seek (mark_bad s1 SeekFrame) SeekFrame Index Depth False
              else
                let M = (case F of
                           None \<Rightarrow> MatchFrames
                         | Some f \<Rightarrow> MatchFrames @ [(f, GetHash f)])
                in case find_matches (Frames s1) (map snd M) (F \<noteq> None) of
                     Inl e \<Rightarrow> Inl e
                   | Inr Matches \<Rightarrow>
                       (let SuitableCandidate = list_ex (\<lambda>m. int m \<le> N) Matches;
                            UndeterminableLocation =
                              (length Matches > 1 \<and> (F = None \<or> length M \<ge> 10))
                        in if \<not> SuitableCandidate \<or> UndeterminableLocation
                           then retry_seek (mark_bad s1 SeekFrame) SeekFrame Index Depth False
                           else if length Matches = 1
                           then identified s1 N SeekFrame Index d1 (hd Matches) (map fst M)
                           else Inr (LapSeek s1 SeekFrame Index Depth M))))"

text \<open>
  One lap of the loop of \<^verbatim>\<open>GetFrameLinearInternal\<close>. A missing frame or a hash that
  differs from the index is blamed on the seek when the decoder has seeked, and ends the
  request with null when it has not. The index is read only when a frame came
  (\<^verbatim>\<open>!Frame || ...\<close>).
\<close>

definition release_exhausted :: "BestAudioSource \<Rightarrow> nat \<Rightarrow> BestAudioSource" where
  "release_exhausted s Index =
     (case Decoders s ! Index of
        None \<Rightarrow> s
      | Some d \<Rightarrow> if \<not> DecodeSuccess d
                  then s\<lparr>Decoders := (Decoders s)[Index := None]\<rparr> else s)"

definition linear_mismatch ::
  "BestAudioSource \<Rightarrow> int \<Rightarrow> nat \<Rightarrow> nat \<Rightarrow> LWAudioDecoder \<Rightarrow> error + call" where
  "linear_mismatch s SeekFrame Depth Index d =
     (if Seeked d then retry_seek (mark_bad s SeekFrame) SeekFrame Index Depth True
      else Inr (Return None s))"

definition GetFrameLinear_lap ::
  "BestAudioSource \<Rightarrow> int \<Rightarrow> int \<Rightarrow> nat \<Rightarrow> nat \<Rightarrow> AVFrame option \<Rightarrow> error + call" where
  "GetFrameLinear_lap s N SeekFrame Depth Index RetFrame =
     (case Decoders s ! Index of
        None \<Rightarrow> Inr (Return RetFrame s)
      | Some d \<Rightarrow>
          if \<not> (CurrentFrame d \<le> N \<and> DecodeSuccess d) then Inr (Return RetFrame s)
          else if CurrentFrame d \<ge> wrap64 (N - PreRoll s) then
            (let (F, d1) = GetNextFrame d;
                 s1 = s\<lparr>Decoders := (Decoders s)[Index := Some d1]\<rparr>
             in case F of
                  None \<Rightarrow> linear_mismatch s1 SeekFrame Depth Index d1
                | Some f \<Rightarrow>
                    if CurrentFrame d < 0 \<or> CurrentFrame d \<ge> int (length (Frames s))
                    then Inl OutOfBounds
                    else if Hash (Frames s ! nat (CurrentFrame d)) \<noteq> GetHash f
                    then linear_mismatch s1 SeekFrame Depth Index d1
                    else (case CacheFrame (FrameCache s1) (CurrentFrame d) f of
                            Inl e \<Rightarrow> Inl e
                          | Inr c \<Rightarrow>
                              Inr (LapLinear (release_exhausted (s1\<lparr>FrameCache := c\<rparr>) Index)
                                     SeekFrame Depth Index
                                     (if CurrentFrame d = N then Some f else RetFrame))))
          else if CurrentFrame d < N then
            Inr (LapLinear
                   (release_exhausted
                      (s\<lparr>Decoders := (Decoders s)[Index :=
                            Some (SkipFrames d (wrap64 (N - PreRoll s - CurrentFrame d)))]\<rparr>) Index)
                   SeekFrame Depth Index RetFrame)
          else Inr (LapLinear (release_exhausted s Index) SeekFrame Depth Index RetFrame))"

definition engine_step :: "int \<Rightarrow> call \<Rightarrow> error + call" where
  "engine_step N c =
     (case c of
        Return r s \<Rightarrow> Inr (Return r s)
      | CallLinear s SeekFrame Depth ForceUnseeked \<Rightarrow>
          (let (s1, Index) = linear_decoder_slot s N ForceUnseeked
           in Inr (LapLinear s1 SeekFrame Depth Index None))
      | CallSeek s SeekFrame Index Depth \<Rightarrow> SeekAndDecode_start s SeekFrame Index Depth
      | LapSeek s SeekFrame Index Depth M \<Rightarrow> SeekAndDecode_lap s N SeekFrame Index Depth M
      | LapLinear s SeekFrame Depth Index RetFrame \<Rightarrow>
          GetFrameLinear_lap s N SeekFrame Depth Index RetFrame)"

text \<open>
  Running the machine. Each step costs one unit of fuel; \<open>Inl OutOfFuel\<close> says that the
  fuel given did not reach the return.
\<close>

fun run :: "nat \<Rightarrow> int \<Rightarrow> call \<Rightarrow> error + (AVFrame option \<times> BestAudioSource)" where
  "run 0 N c = (case c of Return r s \<Rightarrow> Inr (r, s) | _ \<Rightarrow> Inl OutOfFuel)"
| "run (Suc k) N c =
     (case c of
        Return r s \<Rightarrow> Inr (r, s)
      | _ \<Rightarrow> (case engine_step N c of Inl e \<Rightarrow> Inl e | Inr c1 \<Rightarrow> run k N c1))"

definition GetFrameLinearInternal ::
  "nat \<Rightarrow> BestAudioSource \<Rightarrow> int \<Rightarrow> int \<Rightarrow> nat \<Rightarrow> bool
     \<Rightarrow> error + (AVFrame option \<times> BestAudioSource)" where
  "GetFrameLinearInternal fuel s N SeekFrame Depth ForceUnseeked =
     run fuel N (CallLinear s SeekFrame Depth ForceUnseeked)"

definition SeekAndDecode ::
  "nat \<Rightarrow> BestAudioSource \<Rightarrow> int \<Rightarrow> int \<Rightarrow> nat \<Rightarrow> nat
     \<Rightarrow> error + (AVFrame option \<times> BestAudioSource)" where
  "SeekAndDecode fuel s N SeekFrame Index Depth = run fuel N (CallSeek s SeekFrame Index Depth)"

definition GetFrameInternal ::
  "nat \<Rightarrow> BestAudioSource \<Rightarrow> int \<Rightarrow> error + (AVFrame option \<times> BestAudioSource)" where
  "GetFrameInternal fuel s N =
     (if LinearMode s then GetFrameLinearInternal fuel s N (- 1) 0 False
      else case GetSeekFrame s N of
        Inl e \<Rightarrow> Inl e
      | Inr SeekFrame \<Rightarrow>
          if SeekFrame < 100 then GetFrameLinearInternal fuel s N (- 1) 0 False
          else if nearby_decoder s N SeekFrame
          then GetFrameLinearInternal fuel s N (- 1) 0 False
          else (let (s1, Index) = seek_decoder_slot s
                in SeekAndDecode fuel s1 N SeekFrame Index 0))"

text \<open>\<^verbatim>\<open>BestAudioSource::GetFrame\<close>; \<open>None\<close> is the null pointer.\<close>

definition GetFrame ::
  "nat \<Rightarrow> BestAudioSource \<Rightarrow> int \<Rightarrow> bool \<Rightarrow> error + (AVFrame option \<times> BestAudioSource)" where
  "GetFrame fuel s N Linear =
     (if N < 0 \<or> N \<ge> NumFrames s then Inr (None, s)
      else case Cache_GetFrame (FrameCache s) N of
        (Some f, c) \<Rightarrow> Inr (Some f, s\<lparr>FrameCache := c\<rparr>)
      | (None, c) \<Rightarrow>
          if Linear then GetFrameLinearInternal fuel s N (- 1) 0 False
          else GetFrameInternal fuel s N)"

subsection \<open>Sample slicer\<close>

record FrameRange =
  First :: int
  Last :: int
  FirstSamplePos :: int

text \<open>
  The scan \<^verbatim>\<open>for (i = 0; i < Frames.size(); i++)\<close> of \<^verbatim>\<open>GetFrameRangeBySamples\<close> for the
  first frame that holds sample \<open>p\<close>; \<open>-1\<close> is the initial value that stays when none does.
\<close>

fun scan_frames :: "FrameInfo list \<Rightarrow> int \<Rightarrow> int \<Rightarrow> int" where
  "scan_frames [] i p = - 1"
| "scan_frames (f # fs) i p =
     (if p \<ge> Start f \<and> p < wrap64 (Start f + Length f) then i
      else scan_frames fs (i + 1) p)"

text \<open>
  \<^verbatim>\<open>GetFrameRangeBySamples\<close>. After \<^verbatim>\<open>assert(Result.First >= 0 && Result.Last >= 0)\<close> it
  reads \<^verbatim>\<open>TrackIndex.Frames[Result.First]\<close>, which is \<open>Inl OutOfBounds\<close> outside the vector.
\<close>

definition GetFrameRangeBySamples :: "BestAudioSource \<Rightarrow> int \<Rightarrow> int \<Rightarrow> error + FrameRange" where
  "GetFrameRangeBySamples s start count =
     (if count \<le> 0 \<or> start \<ge> NumSamples s
      then Inr \<lparr>First = - 1, Last = - 1, FirstSamplePos = - 1\<rparr>
      else
        let rf = (if start < 0 then 0 else scan_frames (Frames s) 0 start);
            EndPos = wrap64 (start + count);
            rl = (if EndPos \<ge> NumSamples s then wrap64 (NumFrames s - 1)
                  else scan_frames (Frames s) 0 (wrap64 (EndPos - 1)))
        in if rf < 0 \<or> rf \<ge> int (length (Frames s)) then Inl OutOfBounds
           else Inr \<lparr>First = rf, Last = rl, FirstSamplePos = Start (Frames s ! nat rf)\<rparr>)"

text \<open>
  The memory \<^verbatim>\<open>GetPlanarAudio\<close> writes: \<open>bufs\<close> holds the caller's buffers, one for each
  channel pointer, \<open>DataV\<close> the byte offset of each moving pointer \<^verbatim>\<open>DataV[i]\<close> into its
  buffer; \<open>pos\<close> and \<open>cnt\<close> are \<^verbatim>\<open>Start\<close> and \<^verbatim>\<open>Count\<close>. A write or read outside a
  buffer or a plane is \<open>Inl OutOfBounds\<close>; a negative length is one, since the lengths are
  \<^verbatim>\<open>size_t\<close>. A negative \<^verbatim>\<open>size_t\<close> offset added to a pointer moves it back.
\<close>

record slice =
  bufs :: "byte list list"
  DataV :: "int list"
  pos :: int
  cnt :: int

definition memset0 :: "byte list \<Rightarrow> int \<Rightarrow> int \<Rightarrow> error + byte list" where
  "memset0 buf off len =
     (if len = 0 then Inr buf
      else if len < 0 \<or> off < 0 \<or> off + len > int (length buf) then Inl OutOfBounds
      else Inr (take (nat off) buf @ replicate (nat len) 0 @ drop (nat (off + len)) buf))"

definition memcpy :: "byte list \<Rightarrow> int \<Rightarrow> byte list \<Rightarrow> int \<Rightarrow> int \<Rightarrow> error + byte list" where
  "memcpy dst doff src soff len =
     (if len = 0 then Inr dst
      else if len < 0 \<or> doff < 0 \<or> soff < 0 \<or> doff + len > int (length dst)
              \<or> soff + len > int (length src) then Inl OutOfBounds
      else Inr (take (nat doff) dst @ take (nat len) (drop (nat soff) src)
                  @ drop (nat (doff + len)) dst))"

fun for_channels :: "(nat \<Rightarrow> slice \<Rightarrow> error + slice) \<Rightarrow> nat list \<Rightarrow> slice \<Rightarrow> error + slice" where
  "for_channels body [] v = Inr v"
| "for_channels body (i # r) v =
     (case body i v of Inl e \<Rightarrow> Inl e | Inr v1 \<Rightarrow> for_channels body r v1)"

text \<open>\<^verbatim>\<open>memset(Data[i] + off, 0, len)\<close>, and \<^verbatim>\<open>memcpy(Data[i], src + soff, len); Data[i] += len\<close>.\<close>

definition memset_chan :: "int \<Rightarrow> int \<Rightarrow> nat \<Rightarrow> slice \<Rightarrow> error + slice" where
  "memset_chan off len i v =
     (if i \<ge> length (DataV v) \<or> i \<ge> length (bufs v) then Inl OutOfBounds
      else case memset0 (bufs v ! i) (DataV v ! i + off) len of
        Inl e \<Rightarrow> Inl e
      | Inr b \<Rightarrow> Inr (v\<lparr>bufs := (bufs v)[i := b]\<rparr>))"

definition advance_chan :: "int \<Rightarrow> nat \<Rightarrow> slice \<Rightarrow> slice" where
  "advance_chan n i v = v\<lparr>DataV := (DataV v)[i := DataV v ! i + n]\<rparr>"

definition memcpy_chan :: "byte list \<Rightarrow> int \<Rightarrow> int \<Rightarrow> nat \<Rightarrow> slice \<Rightarrow> error + slice" where
  "memcpy_chan src soff len i v =
     (if i \<ge> length (DataV v) \<or> i \<ge> length (bufs v) then Inl OutOfBounds
      else case memcpy (bufs v ! i) (DataV v ! i) src soff len of
        Inl e \<Rightarrow> Inl e
      | Inr b \<Rightarrow> Inr (advance_chan len i (v\<lparr>bufs := (bufs v)[i := b]\<rparr>)))"

definition ZeroFillStart :: "BestAudioSource \<Rightarrow> slice \<Rightarrow> error + slice" where
  "ZeroFillStart s v =
     (if pos v < 0 then
        (let len = min (cnt v) (wrap64 (- pos v));
             ByteLength = wrap64 (len * BytesPerSample s)
         in case for_channels
                   (\<lambda>i w. case memset_chan 0 ByteLength i w of
                             Inl e \<Rightarrow> Inl e
                           | Inr w1 \<Rightarrow> Inr (advance_chan ByteLength i w1))
                   [0..<nat (Channels s)] v of
              Inl e \<Rightarrow> Inl e
            | Inr v1 \<Rightarrow> Inr (v1\<lparr>pos := wrap64 (pos v + len), cnt := wrap64 (cnt v - len)\<rparr>))
      else Inr v)"

definition ZeroFillEnd :: "BestAudioSource \<Rightarrow> slice \<Rightarrow> error + slice" where
  "ZeroFillEnd s v =
     (if wrap64 (pos v + cnt v) > NumSamples s then
        (let len = min (wrap64 (pos v + cnt v - NumSamples s)) (cnt v);
             ByteOffset = wrap64 (min (wrap64 (NumSamples s - pos v)) 0 * BytesPerSample s)
         in case for_channels (memset_chan ByteOffset (wrap64 (len * BytesPerSample s)))
                   [0..<nat (Channels s)] v of
              Inl e \<Rightarrow> Inl e
            | Inr v1 \<Rightarrow> Inr (v1\<lparr>cnt := wrap64 (cnt v - len)\<rparr>))
      else Inr v)"

fun UnpackChannels ::
  "byte list \<Rightarrow> int \<Rightarrow> nat \<Rightarrow> nat \<Rightarrow> int \<Rightarrow> slice \<Rightarrow> error + slice" where
  "UnpackChannels src soff 0 chans bps v = Inr v"
| "UnpackChannels src soff (Suc k) chans bps v =
     (case for_channels (\<lambda>c. memcpy_chan src (soff + int c * bps) bps c) [0..<chans] v of
        Inl e \<Rightarrow> Inl e
      | Inr v1 \<Rightarrow> UnpackChannels src (soff + int chans * bps) k chans bps v1)"

text \<open>
  \<^verbatim>\<open>FillInFramePlanar\<close>; its result is not used by the caller. \<open>fss\<close> is
  \<^verbatim>\<open>FrameStartSample\<close>. Reading a plane that the frame does not have is \<open>Inl OutOfBounds\<close>,
  and so is a negative length, which \<^verbatim>\<open>UnpackChannels\<close> takes as a \<^verbatim>\<open>size_t\<close>.
\<close>

definition FillInFramePlanar :: "BestAudioSource \<Rightarrow> AVFrame \<Rightarrow> int \<Rightarrow> slice \<Rightarrow> error + slice" where
  "FillInFramePlanar s F fss v =
     (if pos v \<ge> fss \<and> pos v < wrap64 (fss + int (nb_samples F)) then
        (let len = min (cnt v) (wrap64 (int (nb_samples F) - pos v + fss))
         in if len = 0 then Inr v
            else
              case (if is_planar F then
                      for_channels
                        (\<lambda>i w. if i \<ge> length (extended_data F) then Inl OutOfBounds
                                else memcpy_chan (extended_data F ! i)
                                       (wrap64 ((pos v - fss) * BytesPerSample s))
                                       (wrap64 (len * BytesPerSample s)) i w)
                        [0..<nat (Channels s)] v
                    else if extended_data F = [] then Inl OutOfBounds
                    else if len < 0 then Inl OutOfBounds
                    else UnpackChannels (extended_data F ! 0)
                           (wrap64 ((pos v - fss) * BytesPerSample s * int (nb_channels F)))
                           (nat len) (nb_channels F) (BytesPerSample s) v) of
                Inl e \<Rightarrow> Inl e
              | Inr v1 \<Rightarrow> Inr (v1\<lparr>pos := wrap64 (pos v + len), cnt := wrap64 (cnt v - len)\<rparr>))
      else Inr v)"

text \<open>
  The loop \<^verbatim>\<open>for (i = Range.First; i <= Range.Last; i++)\<close> of \<^verbatim>\<open>GetPlanarAudio\<close>, on the
  number of frames left. A null frame is dereferenced: \<open>Inl NullDeref\<close>.
\<close>

fun fill_frames ::
  "nat \<Rightarrow> nat \<Rightarrow> BestAudioSource \<Rightarrow> int \<Rightarrow> int \<Rightarrow> slice \<Rightarrow> error + (slice \<times> BestAudioSource)" where
  "fill_frames fuel 0 s i fsp v = Inr (v, s)"
| "fill_frames fuel (Suc k) s i fsp v =
     (case GetFrame fuel s i False of
        Inl e \<Rightarrow> Inl e
      | Inr (None, s1) \<Rightarrow> Inl NullDeref
      | Inr (Some f, s1) \<Rightarrow>
          (case FillInFramePlanar s1 f fsp v of
             Inl e \<Rightarrow> Inl e
           | Inr v1 \<Rightarrow> fill_frames fuel k s1 (i + 1) (wrap64 (fsp + int (nb_samples f))) v1))"

text \<open>
  \<^verbatim>\<open>GetPlanarAudio\<close>: the result is the caller's buffers after the call.
  \<^verbatim>\<open>GetFrame(i)\<close> is \<^verbatim>\<open>GetFrame(i, false)\<close>.
\<close>

definition GetPlanarAudio ::
  "nat \<Rightarrow> BestAudioSource \<Rightarrow> byte list list \<Rightarrow> int \<Rightarrow> int
     \<Rightarrow> error + (byte list list \<times> BestAudioSource)" where
  "GetPlanarAudio fuel s Data0 start count =
     (if length Data0 < nat (Channels s) then Inl OutOfBounds
      else
        case ZeroFillStart s \<lparr>bufs = Data0, DataV = replicate (nat (Channels s)) 0,
                               pos = start, cnt = count\<rparr> of
          Inl e \<Rightarrow> Inl e
        | Inr v1 \<Rightarrow>
        case ZeroFillEnd s v1 of
          Inl e \<Rightarrow> Inl e
        | Inr v2 \<Rightarrow>
        case GetFrameRangeBySamples s (pos v2) (cnt v2) of
          Inl e \<Rightarrow> Inl e
        | Inr rng \<Rightarrow>
            if First rng = - 1 then Inr (bufs v2, s)
            else
              case fill_frames fuel (nat (Last rng - First rng + 1)) s (First rng)
                     (FirstSamplePos rng) v2 of
                Inl e \<Rightarrow> Inl e
              | Inr (v3, s1) \<Rightarrow> if cnt v3 = 0 then Inr (bufs v3, s1) else Inl AudioException)"

subsection \<open>Building and persisting the index\<close>

text \<open>
  \<^verbatim>\<open>IndexTrack\<close>: the loop over the frames of a new decoder, with the running sample count,
  appending to \<^verbatim>\<open>TrackIndex.Frames\<close>.
\<close>

fun index_frames :: "AVFrame list \<Rightarrow> int \<Rightarrow> FrameInfo list" where
  "index_frames [] ns = []"
| "index_frames (F # r) ns =
     \<lparr>PTS = pts F, Start = ns, Length = int (nb_samples F), Hash = GetHash F\<rparr>
       # index_frames r (wrap64 (ns + int (nb_samples F)))"

definition IndexTrack :: "BestAudioSource \<Rightarrow> bool \<times> BestAudioSource" where
  "IndexTrack s =
     (let s1 = s\<lparr>Frames := Frames s @ index_frames (linear_decode (Source s)) 0\<rparr>
      in (Frames s1 \<noteq> [], s1))"

text \<open>
  Modelled from the spec: the byte-IO helpers \<^verbatim>\<open>WriteInt\<close>, \<^verbatim>\<open>WriteInt64\<close>,
  \<^verbatim>\<open>WriteString\<close>, \<^verbatim>\<open>ReadInt\<close>, \<^verbatim>\<open>ReadInt64\<close>, \<^verbatim>\<open>ReadString\<close>, \<^verbatim>\<open>ReadCompareInt\<close>,
  \<^verbatim>\<open>WriteBSHeader\<close>, \<^verbatim>\<open>ReadBSHeader\<close> and \<^verbatim>\<open>OpenCacheFile\<close> are not in
  \<^verbatim>\<open>audiosource.cpp\<close>. Integers are little-endian and of fixed width (4 bytes for
  \<^verbatim>\<open>int\<close>, 8 for \<^verbatim>\<open>int64_t\<close>, two's complement), a string is its length as an \<^verbatim>\<open>int\<close>
  followed by its bytes, the header is a fixed byte string \<open>hdr\<close> that the reader
  recognises, and there is one file for each cache path and track. A reader returns
  \<open>None\<close> when the file ends before the value does; what the callers then see is not
  fixed by the spec, and \<^verbatim>\<open>ReadAudioTrackIndex\<close> is \<open>Inl ShortRead\<close> there.
\<close>

definition le_bytes :: "nat \<Rightarrow> int \<Rightarrow> byte list" where
  "le_bytes n v = map (\<lambda>k. word_of_int (v div 2 ^ (8 * k))) [0..<n]"

fun le_value :: "byte list \<Rightarrow> int" where
  "le_value [] = 0"
| "le_value (b # bs) = uint b + 256 * le_value bs"

definition le_signed :: "byte list \<Rightarrow> int" where
  "le_signed bs =
     (if le_value bs \<ge> 2 ^ (8 * length bs - 1) then le_value bs - 2 ^ (8 * length bs)
      else le_value bs)"

definition WriteInt :: "int \<Rightarrow> byte list" where
  "WriteInt v = le_bytes 4 v"

definition WriteInt64 :: "int \<Rightarrow> byte list" where
  "WriteInt64 v = le_bytes 8 v"

definition WriteString :: "byte list \<Rightarrow> byte list" where
  "WriteString str = WriteInt (int (length str)) @ str"

definition ReadInt :: "byte list \<Rightarrow> (int \<times> byte list) option" where
  "ReadInt f = (if length f < 4 then None else Some (le_signed (take 4 f), drop 4 f))"

definition ReadInt64 :: "byte list \<Rightarrow> (int \<times> byte list) option" where
  "ReadInt64 f = (if length f < 8 then None else Some (le_signed (take 8 f), drop 8 f))"

definition ReadString :: "byte list \<Rightarrow> (byte list \<times> byte list) option" where
  "ReadString f =
     (case ReadInt f of
        None \<Rightarrow> None
      | Some (n, r) \<Rightarrow>
          if n < 0 \<or> int (length r) < n then None
          else Some (take (nat n) r, drop (nat n) r))"

definition ReadCompareInt :: "byte list \<Rightarrow> int \<Rightarrow> (bool \<times> byte list) option" where
  "ReadCompareInt f v = (case ReadInt f of None \<Rightarrow> None | Some (x, r) \<Rightarrow> Some (v = x, r))"

definition ReadBSHeader :: "byte list \<Rightarrow> byte list \<Rightarrow> byte list option" where
  "ReadBSHeader hdr f =
     (if length hdr \<le> length f \<and> take (length hdr) f = hdr then Some (drop (length hdr) f)
      else None)"

record filesystem =
  contents :: "string \<times> int \<Rightarrow> byte list option"
  can_write :: "string \<times> int \<Rightarrow> bool"

text \<open>
  \<^verbatim>\<open>WriteAudioTrackIndex\<close>: the bytes written after the file is opened, and the function.
  Neither names \<^verbatim>\<open>DrcScale\<close> (\<^verbatim>\<open>// FIXME, DRCSCale\<close>). A hash is a
  \<^verbatim>\<open>std::array<uint8_t, 16>\<close>.
\<close>

definition index_bytes :: "byte list \<Rightarrow> BestAudioSource \<Rightarrow> byte list" where
  "index_bytes hdr s =
     hdr @ WriteInt (AudioTrack s) @ WriteInt (if VariableFormat s then 1 else 0)
       @ WriteInt (int (length (LAVFOptions s)))
       @ concat (map (\<lambda>(k, v). WriteString k @ WriteString v) (LAVFOptions s))
       @ WriteInt64 (int (length (Frames s)))
       @ concat (map (\<lambda>f. Hash f @ WriteInt64 (PTS f) @ WriteInt64 (Length f)) (Frames s))"

definition WriteAudioTrackIndex ::
  "byte list \<Rightarrow> BestAudioSource \<Rightarrow> string \<Rightarrow> filesystem \<Rightarrow> bool \<times> filesystem" where
  "WriteAudioTrackIndex hdr s CachePath fs =
     (if \<not> can_write fs (CachePath, AudioTrack s) then (False, fs)
      else (True, fs\<lparr>contents := (contents fs)((CachePath, AudioTrack s) \<mapsto> index_bytes hdr s)\<rparr>))"

text \<open>\<^verbatim>\<open>IndexLAVFOptions[Key] = ...\<close> on a \<^verbatim>\<open>std::map\<close> kept as its entries in key order.\<close>

fun map_set :: "('k::linorder \<times> 'v) list \<Rightarrow> 'k \<Rightarrow> 'v \<Rightarrow> ('k \<times> 'v) list" where
  "map_set [] k v = [(k, v)]"
| "map_set ((k0, v0) # r) k v =
     (if k < k0 then (k, v) # (k0, v0) # r
      else if k = k0 then (k, v) # r
      else (k0, v0) # map_set r k v)"

fun read_options ::
  "nat \<Rightarrow> byte list \<Rightarrow> (byte list \<times> byte list) list
     \<Rightarrow> ((byte list \<times> byte list) list \<times> byte list) option" where
  "read_options 0 f m = Some (m, f)"
| "read_options (Suc k) f m =
     (case ReadString f of
        None \<Rightarrow> None
      | Some (Key, f1) \<Rightarrow>
          (case ReadString f1 of
             None \<Rightarrow> None
           | Some (v, f2) \<Rightarrow> read_options k f2 (map_set m Key v)))"

text \<open>
  The loop over the frame records of \<^verbatim>\<open>ReadAudioTrackIndex\<close>: a hash that cannot be read
  in full makes the function return false, with the records read so far left in the index.
\<close>

fun read_frames ::
  "nat \<Rightarrow> byte list \<Rightarrow> FrameInfo list \<Rightarrow> int \<Rightarrow> error + (bool \<times> FrameInfo list \<times> int)" where
  "read_frames 0 f acc ns = Inr (True, acc, ns)"
| "read_frames (Suc k) f acc ns =
     (if length f < 16 then Inr (False, acc, ns)
      else case ReadInt64 (drop 16 f) of
        None \<Rightarrow> Inl ShortRead
      | Some (p, f1) \<Rightarrow>
          (case ReadInt64 f1 of
             None \<Rightarrow> Inl ShortRead
           | Some (l, f2) \<Rightarrow>
               read_frames k f2
                 (acc @ [\<lparr>PTS = p, Start = ns, Length = l, Hash = take 16 f\<rparr>])
                 (wrap64 (ns + l))))"

text \<open>
  \<^verbatim>\<open>ReadAudioTrackIndex\<close>. The comparisons are of the track, of \<^verbatim>\<open>VariableFormat\<close> and of
  the demuxer options; at the place of \<^verbatim>\<open>DrcScale\<close> there is the comment \<^verbatim>\<open>// drcscale\<close>.
  \<^verbatim>\<open>TrackIndex.Frames.reserve(NumFrames)\<close> with a negative count, or with more entries than
  the loop counter \<^verbatim>\<open>int i\<close> can count, is \<open>Inl LengthError\<close>.
\<close>

definition ReadAudioTrackIndex ::
  "byte list \<Rightarrow> BestAudioSource \<Rightarrow> string \<Rightarrow> filesystem \<Rightarrow> error + (bool \<times> BestAudioSource)" where
  "ReadAudioTrackIndex hdr s CachePath fs =
     (case contents fs (CachePath, AudioTrack s) of
        None \<Rightarrow> Inr (False, s)
      | Some f0 \<Rightarrow>
        case ReadBSHeader hdr f0 of
          None \<Rightarrow> Inr (False, s)
        | Some f1 \<Rightarrow>
        case ReadCompareInt f1 (AudioTrack s) of
          None \<Rightarrow> Inl ShortRead
        | Some (ok1, f2) \<Rightarrow>
        if \<not> ok1 then Inr (False, s)
        else
        case ReadCompareInt f2 (if VariableFormat s then 1 else 0) of
          None \<Rightarrow> Inl ShortRead
        | Some (ok2, f3) \<Rightarrow>
        if \<not> ok2 then Inr (False, s)
        else
        case ReadInt f3 of
          None \<Rightarrow> Inl ShortRead
        | Some (LAVFOptCount, f4) \<Rightarrow>
        case read_options (nat LAVFOptCount) f4 [] of
          None \<Rightarrow> Inl ShortRead
        | Some (IndexLAVFOptions, f5) \<Rightarrow>
        if LAVFOptions s \<noteq> IndexLAVFOptions then Inr (False, s)
        else
        case ReadInt64 f5 of
          None \<Rightarrow> Inl ShortRead
        | Some (n, f6) \<Rightarrow>
        if n < 0 \<or> n > 2147483647 then Inl LengthError
        else
        case read_frames (nat n) f6 (Frames s) 0 of
          Inl e \<Rightarrow> Inl e
        | Inr (ok, fr, ns) \<Rightarrow> Inr (ok, s\<lparr>Frames := fr, NumSamples := ns\<rparr>))"

text \<open>
  The constructor. \<^verbatim>\<open>GetAudioProperties\<close> takes the first frame of the decoder that ends in
  slot 0 and throws for a sample size of zero; of \<^verbatim>\<open>AP\<close> the model keeps the fields that
  the functions above read. \<^verbatim>\<open>OpenFile\<close> throws for a negative \<^verbatim>\<open>DrcScale\<close>; the option
  dictionary it fills with \<^verbatim>\<open>drc_scale\<close> is not the one it passes to \<^verbatim>\<open>avcodec_open2\<close>
  (that argument is \<^verbatim>\<open>nullptr\<close>). The index is read from the cache file, and built and
  written when \<^verbatim>\<open>ReadAudioTrackIndex\<close> returns false. \<^verbatim>\<open>TrackIndex.Frames.back()\<close> on
  an empty index is \<open>Inl EmptyList\<close>. The track is taken as resolved. The member
  initialisers are in \<^verbatim>\<open>audiosource.h\<close>: the initial pre-roll \<open>pr0\<close> and cache cap \<open>max0\<close>
  are parameters, the other members start empty or zero, with the latch clear.
\<close>

definition new_BestAudioSource ::
  "byte list \<Rightarrow> int \<Rightarrow> nat \<Rightarrow> media \<Rightarrow> string \<Rightarrow> int \<Rightarrow> bool \<Rightarrow> string
     \<Rightarrow> (byte list \<times> byte list) list \<Rightarrow> real \<Rightarrow> filesystem
     \<Rightarrow> error + (BestAudioSource \<times> filesystem)" where
  "new_BestAudioSource hdr pr0 max0 m SourceFile Track VarFmt CachePath LAVFOpts Drc fs =
     (if Drc < 0 then Inl AudioException
      else
        let (PropFrame, Decoder) = GetNextFrame (new_LWAudioDecoder m)
        in if (case PropFrame of None \<Rightarrow> False | Some F \<Rightarrow> bytes_per_sample F = 0)
           then Inl AudioException
           else
             let s0 = \<lparr>Source = m, AudioTrack = Track, VariableFormat = VarFmt,
                        LAVFOptions = LAVFOpts, DrcScale = Drc, NumFrames = 0, NumSamples = 0,
                        BytesPerSample =
                          (case PropFrame of None \<Rightarrow> 0 | Some F \<Rightarrow> int (bytes_per_sample F)),
                        Channels =
                          (case PropFrame of None \<Rightarrow> 0 | Some F \<Rightarrow> int (nb_channels F)),
                        Frames = [],
                        FrameCache = \<lparr>Data = [], Size = 0, MaxSize = max0\<rparr>,
                        Decoders = replicate MaxVideoSources None,
                        DecoderLastUse = replicate MaxVideoSources 0,
                        DecoderSequenceNum = 0, PreRoll = pr0, LinearMode = False,
                        BadSeekLocations = {}\<rparr>;
                 path = (if CachePath = [] then SourceFile else CachePath)
             in case ReadAudioTrackIndex hdr s0 path fs of
                  Inl e \<Rightarrow> Inl e
                | Inr (ok, s1) \<Rightarrow>
                    (case (if ok then Inr (s1, fs)
                           else (let (built, s2) = IndexTrack s1
                                 in if \<not> built then Inl AudioException
                                    else Inr (s2, snd (WriteAudioTrackIndex hdr s2 path fs)))) of
                       Inl e \<Rightarrow> Inl e
                     | Inr (s3, fs1) \<Rightarrow>
                         if Frames s3 = [] then Inl EmptyList
                         else Inr (s3\<lparr>NumFrames := int (length (Frames s3)),
                                       NumSamples := wrap64 (Start (last (Frames s3))
                                                             + Length (last (Frames s3))),
                                       Decoders := (Decoders s3)[0 := Some Decoder]\<rparr>, fs1)))"

subsection \<open>Invariants and the states of the engine\<close>

fun call_state :: "call \<Rightarrow> BestAudioSource" where
  "call_state (Return r s) = s"
| "call_state (CallLinear s sf dp fu) = s"
| "call_state (CallSeek s sf ix dp) = s"
| "call_state (LapSeek s sf ix dp M) = s"
| "call_state (LapLinear s sf dp ix r) = s"

text \<open>
  The state that \<^verbatim>\<open>SetLinearMode\<close> leaves and the linear path keeps: the latch is set, the
  decoder array has its \<^verbatim>\<open>MaxVideoSources\<close> slots, and no decoder in it has ever seeked.
\<close>

definition unseeked :: "BestAudioSource \<Rightarrow> bool" where
  "unseeked s = list_all (\<lambda>d. case d of None \<Rightarrow> True | Some x \<Rightarrow> \<not> Seeked x) (Decoders s)"

definition linear_ok :: "BestAudioSource \<Rightarrow> bool" where
  "linear_ok s \<longleftrightarrow> LinearMode s \<and> unseeked s \<and> length (Decoders s) = MaxVideoSources"

fun linear_call :: "call \<Rightarrow> bool" where
  "linear_call (Return r s) = linear_ok s"
| "linear_call (CallLinear s sf dp fu) = linear_ok s"
| "linear_call (CallSeek s sf ix dp) = False"
| "linear_call (LapSeek s sf ix dp M) = False"
| "linear_call (LapLinear s sf dp ix r) = (linear_ok s \<and> ix < MaxVideoSources)"

text \<open>
  The index as the constructor leaves it: not empty, every \<open>Start\<close> the sum of the lengths
  before it, \<^verbatim>\<open>AP.NumFrames\<close> the number of entries and \<^verbatim>\<open>AP.NumSamples\<close> the end of the
  last frame. \<open>index_ok\<close> adds what holds of a track that was decoded: no frame has a
  negative length, and the samples can be counted in an \<^verbatim>\<open>int64_t\<close>.
\<close>

fun starts_from :: "int \<Rightarrow> FrameInfo list \<Rightarrow> bool" where
  "starts_from a [] = True"
| "starts_from a (f # fs) = (Start f = a \<and> starts_from (wrap64 (a + Length f)) fs)"

definition index_ok :: "BestAudioSource \<Rightarrow> bool" where
  "index_ok s \<longleftrightarrow>
     Frames s \<noteq> [] \<and> starts_from 0 (Frames s) \<and> NumFrames s = int (length (Frames s))
     \<and> NumSamples s = wrap64 (Start (last (Frames s)) + Length (last (Frames s)))
     \<and> list_all (\<lambda>f. 0 \<le> Length f) (Frames s)
     \<and> sum_list (map Length (Frames s)) < 2 ^ 63"

text \<open>
  The ranges of the C++ types \<^verbatim>\<open>int\<close> and \<^verbatim>\<open>int64_t\<close>, and what the types give for an
  index and for the demuxer options: a hash of 16 bytes, timestamps and lengths that are
  \<^verbatim>\<open>int64_t\<close>, a \<^verbatim>\<open>std::map\<close> with its keys in strictly increasing order, sizes that fit
  the \<^verbatim>\<open>int\<close> they are written as.
\<close>

definition int32 :: "int \<Rightarrow> bool" where
  "int32 v \<longleftrightarrow> - (2 ^ 31) \<le> v \<and> v < 2 ^ 31"

definition int64 :: "int \<Rightarrow> bool" where
  "int64 v \<longleftrightarrow> - (2 ^ 63) \<le> v \<and> v < 2 ^ 63"

definition frame_info_ok :: "FrameInfo \<Rightarrow> bool" where
  "frame_info_ok f \<longleftrightarrow> length (Hash f) = 16 \<and> int64 (PTS f) \<and> int64 (Length f)"

definition options_ok :: "(byte list \<times> byte list) list \<Rightarrow> bool" where
  "options_ok m \<longleftrightarrow>
     sorted_wrt (<) (map fst m) \<and> int32 (int (length m))
     \<and> list_all (\<lambda>(k, v). int32 (int (length k)) \<and> int32 (int (length v))) m"

definition writable_index :: "BestAudioSource \<Rightarrow> bool" where
  "writable_index s \<longleftrightarrow>
     int32 (AudioTrack s) \<and> options_ok (LAVFOptions s) \<and> int32 (int (length (Frames s)))
     \<and> list_all frame_info_ok (Frames s)"

text \<open>
  The PCM content of a frame: the bytes of sample \<open>i\<close> of channel \<open>c\<close>, at the place where
  \<^verbatim>\<open>FillInFramePlanar\<close> reads them (plane \<open>c\<close> at sample \<open>i\<close> for a planar format, sample
  \<open>i * channels + c\<close> of \<^verbatim>\<open>extended_data[0]\<close> for a packed one, as \<^verbatim>\<open>UnpackChannels\<close>
  walks it). Two frames carry the same PCM when they agree in sample size, channel count,
  sample count and every sample.
\<close>

definition pcm_sample :: "AVFrame \<Rightarrow> nat \<Rightarrow> nat \<Rightarrow> byte list" where
  "pcm_sample F c i =
     (if is_planar F
      then take (bytes_per_sample F) (drop (i * bytes_per_sample F) (extended_data F ! c))
      else take (bytes_per_sample F)
             (drop ((i * nb_channels F + c) * bytes_per_sample F) (extended_data F ! 0)))"

definition same_pcm :: "AVFrame \<Rightarrow> AVFrame \<Rightarrow> bool" where
  "same_pcm F G \<longleftrightarrow>
     bytes_per_sample F = bytes_per_sample G \<and> nb_channels F = nb_channels G
     \<and> nb_samples F = nb_samples G
     \<and> list_all (\<lambda>c. list_all (\<lambda>i. pcm_sample F c i = pcm_sample G c i) [0..<nb_samples F])
          [0..<nb_channels F]"



subsection \<open>Example data\<close>

definition pcm_frame :: "bool \<Rightarrow> nat \<Rightarrow> nat \<Rightarrow> byte list list \<Rightarrow> AVFrame" where
  "pcm_frame planar ch n planes =
     \<lparr>is_planar = planar, bytes_per_sample = 1, nb_channels = ch, nb_samples = n, pts = 0,
      extended_data = planes, extended_buf = [Some 4]\<rparr>"

definition demo_cache :: Cache where
  "demo_cache =
     \<lparr>Data = [new_CacheBlock 1 (pcm_frame True 1 4 [[1, 2, 3, 4]]),
              new_CacheBlock 2 (pcm_frame True 1 4 [[5, 6, 7, 8]])],
      Size = 8, MaxSize = 10\<rparr>"

text \<open>
  A source of one mono frame of four one-byte samples, as the constructor leaves it: the
  index built from the frame, and in slot 0 the decoder that has given its first frame to
  \<^verbatim>\<open>GetAudioProperties\<close>. \<open>demo_source_cached\<close> has frame 0 in the cache.
\<close>

definition demo_media :: media where
  "demo_media = \<lparr>linear_decode = [pcm_frame True 1 4 [[1, 2, 3, 4]]], seek_decode = (\<lambda>p. None)\<rparr>"

definition demo_source :: BestAudioSource where
  "demo_source =
     \<lparr>Source = demo_media,
      AudioTrack = 0, VariableFormat = False, LAVFOptions = [], DrcScale = 0,
      NumFrames = 1, NumSamples = 4, BytesPerSample = 1, Channels = 1,
      Frames = index_frames (linear_decode demo_media) 0,
      FrameCache = \<lparr>Data = [], Size = 0, MaxSize = 100\<rparr>,
      Decoders = [Some \<lparr>pending = [], CurrentFrame = 1, CurrentSample = 4, Seeked = False,
                        DecodeSuccess = True\<rparr>, None, None],
      DecoderLastUse = [0, 0, 0], DecoderSequenceNum = 0, PreRoll = 0, LinearMode = False,
      BadSeekLocations = {}\<rparr>"

definition demo_source_cached :: BestAudioSource where
  "demo_source_cached =
     demo_source\<lparr>FrameCache :=
       \<lparr>Data = [new_CacheBlock 0 (pcm_frame True 1 4 [[1, 2, 3, 4]])], Size = 4, MaxSize = 100\<rparr>\<rparr>"

text \<open>
  A file system with no files in which every file can be created, and a header for the
  index files.
\<close>

definition empty_fs :: filesystem where
  "empty_fs = \<lparr>contents = (\<lambda>p. None), can_write = (\<lambda>p. True)\<rparr>"

definition demo_hdr :: "byte list" where
  "demo_hdr = [66, 83, 50, 73]"

text \<open>
  Two samples of two channels, once planar and once packed: channel 0 holds the samples
  \<open>1, 2\<close> and channel 1 the samples \<open>3, 4\<close>.
\<close>

definition planar_stereo :: AVFrame where
  "planar_stereo = pcm_frame True 2 2 [[1, 2], [3, 4]]"

definition packed_stereo :: AVFrame where
  "packed_stereo = pcm_frame False 2 2 [[1, 3, 2, 4]]"

text \<open>
  The same track as a decoder with another dynamic range compression delivers it (other
  sample values), and the file system after \<open>demo_source\<close> has written its index under
  the cache path \<open>''a''\<close>.
\<close>

definition demo_media_drc :: media where
  "demo_media_drc =
     \<lparr>linear_decode = [pcm_frame True 1 4 [[1, 3, 2, 4]]], seek_decode = (\<lambda>p. None)\<rparr>"

definition demo_fs :: filesystem where
  "demo_fs = empty_fs\<lparr>contents := (contents empty_fs)((''a'', 0) \<mapsto> index_bytes demo_hdr demo_source)\<rparr>"

text \<open>
  A track of 101 frames: a hundred frames with the samples \<open>1, 2, 3, 4\<close> and a last frame
  with other samples and the timestamp 100, to which a seek leads exactly. \<open>tail_source\<close>
  is the source as the constructor leaves it on this track.
\<close>

definition tail_frame :: AVFrame where
  "tail_frame = (pcm_frame True 1 4 [[1, 3, 2, 4]])\<lparr>pts := 100\<rparr>"

definition tail_media :: media where
  "tail_media =
     \<lparr>linear_decode = replicate 100 (pcm_frame True 1 4 [[1, 2, 3, 4]]) @ [tail_frame],
      seek_decode = (\<lambda>p. if p = 100 then Some [tail_frame] else None)\<rparr>"

definition tail_source :: BestAudioSource where
  "tail_source =
     \<lparr>Source = tail_media,
      AudioTrack = 0, VariableFormat = False, LAVFOptions = [], DrcScale = 0,
      NumFrames = 101, NumSamples = 404, BytesPerSample = 1, Channels = 1,
      Frames = index_frames (linear_decode tail_media) 0,
      FrameCache = \<lparr>Data = [], Size = 0, MaxSize = 100\<rparr>,
      Decoders = [Some \<lparr>pending = tl (linear_decode tail_media), CurrentFrame = 1,
                        CurrentSample = 4, Seeked = False, DecodeSuccess = True\<rparr>, None, None],
      DecoderLastUse = [0, 0, 0], DecoderSequenceNum = 0, PreRoll = 0, LinearMode = False,
      BadSeekLocations = {}\<rparr>"



section \<open>Properties\<close>

lemma cache_inv_nonempty: "cache_inv c \<Longrightarrow> Size c > MaxSize c \<Longrightarrow> Data c \<noteq> []"
  by (auto simp: cache_inv_def)

lemma cache_inv_butlast:
  "cache_inv c \<Longrightarrow> Data c \<noteq> [] \<Longrightarrow>
   cache_inv (c\<lparr>Size := Size c - BlockSize (last (Data c)), Data := butlast (Data c)\<rparr>)"
proof -
  assume inv: "cache_inv c" and ne: "Data c \<noteq> []"
  from ne have split: "Data c = butlast (Data c) @ [last (Data c)]" by simp
  have "sum_list (map BlockSize (Data c)) =
        sum_list (map BlockSize (butlast (Data c))) + BlockSize (last (Data c))"
    by (subst split) simp
  moreover have "distinct (map FrameNumber (butlast (Data c)))"
    using inv by (simp add: cache_inv_def distinct_butlast map_butlast)
  ultimately show ?thesis using inv by (simp add: cache_inv_def)
qed

lemma ApplyMaxSize_inv:
  "cache_inv c \<Longrightarrow> \<exists>c1. ApplyMaxSize c = Inr c1 \<and> cache_inv c1 \<and> Size c1 \<le> MaxSize c1
     \<and> MaxSize c1 = MaxSize c \<and> evicted_to c c1"
proof (induction c rule: ApplyMaxSize.induct)
  case (1 c)
  show ?case
  proof (cases "Size c > MaxSize c")
    case False
    then show ?thesis using "1.prems"
      by (subst ApplyMaxSize.simps) (auto simp: evicted_to_def intro: exI[of _ "length (Data c)"])
  next
    case True
    let ?c2 = "c\<lparr>Size := Size c - BlockSize (last (Data c)), Data := butlast (Data c)\<rparr>"
    have ne: "Data c \<noteq> []" using "1.prems" True by (rule cache_inv_nonempty)
    have inv2: "cache_inv ?c2" using "1.prems" ne by (rule cache_inv_butlast)
    from "1.IH"[OF True ne inv2] obtain c1 where
      r: "ApplyMaxSize ?c2 = Inr c1" "cache_inv c1" "Size c1 \<le> MaxSize c1"
         "MaxSize c1 = MaxSize ?c2" "evicted_to ?c2 c1"
      by blast
    from r(5) obtain k where k: "k \<le> length (butlast (Data c))" "Data c1 = take k (butlast (Data c))"
      "\<forall>j. k < j \<and> j \<le> length (butlast (Data c))
          \<longrightarrow> MaxSize c < sum_list (map BlockSize (take j (butlast (Data c))))"
      by (auto simp: evicted_to_def)
    have tk: "\<And>j. j \<le> length (Data c) - 1 \<Longrightarrow> take j (butlast (Data c)) = take j (Data c)"
      by (simp add: butlast_conv_take min.absorb1)
    have full: "MaxSize c < sum_list (map BlockSize (take (length (Data c)) (Data c)))"
      using True "1.prems" by (simp add: cache_inv_def)
    have "evicted_to c c1"
      unfolding evicted_to_def
    proof (intro exI[of _ k] conjI allI impI)
      show "k \<le> length (Data c)" using k(1) by simp
      show "Data c1 = take k (Data c)" using k(1,2) tk by simp
      fix j assume j: "k < j \<and> j \<le> length (Data c)"
      show "MaxSize c < sum_list (map BlockSize (take j (Data c)))"
      proof (cases "j = length (Data c)")
        case True then show ?thesis using full by simp
      next
        case False
        with j have jl: "j \<le> length (Data c) - 1" by arith
        with j k(3) have "MaxSize c < sum_list (map BlockSize (take j (butlast (Data c))))" by simp
        with jl tk show ?thesis by simp
      qed
    qed
    moreover have "ApplyMaxSize c = Inr c1"
      using True ne r(1) by (subst ApplyMaxSize.simps) simp
    ultimately show ?thesis using r by auto
  qed
qed

lemma find_block_None: "find_block n xs = None \<longleftrightarrow> n \<notin> FrameNumber ` set xs"
  by (induction xs) (auto split: option.splits)

lemma find_block_None_filter:
  "find_block n xs = None \<Longrightarrow> filter (\<lambda>b. FrameNumber b \<noteq> n) xs = xs"
  by (induction xs) (auto split: option.splits if_splits)

lemma filter_other_id:
  "n \<notin> FrameNumber ` set xs \<Longrightarrow> filter (\<lambda>b. FrameNumber b \<noteq> n) xs = xs"
  by (induction xs) auto

lemma find_block_Some:
  "find_block n xs = Some (b, r) \<Longrightarrow>
     FrameNumber b = n \<and> b \<in> set xs \<and> set r \<subseteq> set xs
     \<and> sum_list (map BlockSize xs) = BlockSize b + sum_list (map BlockSize r)
     \<and> (distinct (map FrameNumber xs) \<longrightarrow>
          r = filter (\<lambda>b. FrameNumber b \<noteq> n) xs \<and> distinct (map FrameNumber r))"
proof (induction xs arbitrary: r)
  case Nil then show ?case by simp
next
  case (Cons x xs)
  show ?case
  proof (cases "FrameNumber x = n")
    case True
    with Cons.prems have [simp]: "b = x" "r = xs" by auto
    have "distinct (map FrameNumber (x # xs)) \<Longrightarrow> filter (\<lambda>b. FrameNumber b \<noteq> n) xs = xs"
      using True by (simp add: filter_other_id)
    then show ?thesis using True by auto
  next
    case False
    with Cons.prems obtain r0 where r0: "find_block n xs = Some (b, r0)" "r = x # r0"
      by (auto split: option.splits)
    from Cons.IH[OF r0(1)] show ?thesis using False r0(2) by auto
  qed
qed

lemma SetLinearMode_latched [simp]: "LinearMode (SetLinearMode s)"
  by (simp add: SetLinearMode_def)

lemma retry_seek_latch:
  "retry_seek s sf ix dp fu = Inr c \<Longrightarrow> LinearMode s \<Longrightarrow> LinearMode (call_state c)"
  by (auto simp: retry_seek_def split: if_splits sum.splits)

lemma mark_bad_latch [simp]: "LinearMode (mark_bad s sf) = LinearMode s"
  by (simp add: mark_bad_def)

lemma SeekAndDecode_start_latch:
  "SeekAndDecode_start s sf ix dp = Inr c \<Longrightarrow> LinearMode s \<Longrightarrow> LinearMode (call_state c)"
  by (auto simp: SeekAndDecode_start_def Let_def
           split: if_splits option.splits prod.splits)

lemma identified_latch:
  "identified s N sf ix d m fs = Inr c \<Longrightarrow> LinearMode s \<Longrightarrow> LinearMode (call_state c)"
  by (auto simp: identified_def Let_def
           split: if_splits option.splits prod.splits sum.splits)

lemma SeekAndDecode_lap_latch:
  "SeekAndDecode_lap s N sf ix dp M = Inr c \<Longrightarrow> LinearMode s \<Longrightarrow> LinearMode (call_state c)"
  unfolding SeekAndDecode_lap_def Let_def
  by (auto split: if_splits option.splits prod.splits sum.splits
           dest!: retry_seek_latch identified_latch)

lemma release_exhausted_latch [simp]: "LinearMode (release_exhausted s ix) = LinearMode s"
  by (simp add: release_exhausted_def split: option.splits)

lemma linear_mismatch_latch:
  "linear_mismatch s sf dp ix d = Inr c \<Longrightarrow> LinearMode s \<Longrightarrow> LinearMode (call_state c)"
  by (auto simp: linear_mismatch_def split: if_splits dest!: retry_seek_latch)

lemma GetFrameLinear_lap_latch:
  "GetFrameLinear_lap s N sf dp ix r = Inr c \<Longrightarrow> LinearMode s \<Longrightarrow> LinearMode (call_state c)"
  unfolding GetFrameLinear_lap_def Let_def
  by (auto split: if_splits option.splits prod.splits sum.splits
           dest!: linear_mismatch_latch)

lemma linear_decoder_slot_latch:
  "linear_decoder_slot s N fu = (s1, ix) \<Longrightarrow> LinearMode s1 = LinearMode s"
  by (auto simp: linear_decoder_slot_def Let_def split: prod.splits)

lemma engine_step_latch:
  "engine_step N c = Inr c1 \<Longrightarrow> LinearMode (call_state c) \<Longrightarrow> LinearMode (call_state c1)"
  unfolding engine_step_def
  by (cases c)
     (auto split: prod.splits
           dest: linear_decoder_slot_latch
           dest!: SeekAndDecode_start_latch SeekAndDecode_lap_latch GetFrameLinear_lap_latch)

lemma run_Suc_Inr:
  "run (Suc k) N c = Inr res \<Longrightarrow>
     (\<exists>r s. c = Return r s \<and> res = (r, s))
     \<or> (\<exists>c1. engine_step N c = Inr c1 \<and> run k N c1 = Inr res)"
  by (cases c) (auto split: sum.splits)

lemma run_invariant:
  assumes step: "\<And>c c1. P c \<Longrightarrow> engine_step N c = Inr c1 \<Longrightarrow> P c1"
  shows "P c \<Longrightarrow> run k N c = Inr (r, s1) \<Longrightarrow> P (Return r s1)"
proof (induction k arbitrary: c)
  case 0
  then show ?case by (cases c) auto
next
  case (Suc k)
  from run_Suc_Inr[OF Suc.prems(2)] show ?case
  proof
    assume "\<exists>r0 s0. c = Return r0 s0 \<and> (r, s1) = (r0, s0)"
    with Suc.prems(1) show ?thesis by auto
  next
    assume "\<exists>c1. engine_step N c = Inr c1 \<and> run k N c1 = Inr (r, s1)"
    then obtain c1 where c1: "engine_step N c = Inr c1" "run k N c1 = Inr (r, s1)" by blast
    from step[OF Suc.prems(1) c1(1)] c1(2) Suc.IH show ?thesis by blast
  qed
qed

lemma run_latch:
  assumes "run k N c = Inr (r, s1)" and "LinearMode (call_state c)"
  shows "LinearMode s1"
proof -
  have "LinearMode (call_state (Return r s1))"
    by (rule run_invariant[where P = "\<lambda>c. LinearMode (call_state c)", OF _ assms(2) assms(1)])
       (rule engine_step_latch)
  then show ?thesis by simp
qed

lemma seek_decoder_slot_latch:
  "seek_decoder_slot s = (s1, ix) \<Longrightarrow> LinearMode s1 = LinearMode s"
  by (auto simp: seek_decoder_slot_def Let_def split: prod.splits)

lemma GetFrameInternal_latch:
  "GetFrameInternal k s N = Inr (r, s1) \<Longrightarrow> LinearMode s \<Longrightarrow> LinearMode s1"
  by (auto simp: GetFrameInternal_def GetFrameLinearInternal_def SeekAndDecode_def
           split: if_splits sum.splits prod.splits
           dest!: run_latch dest: seek_decoder_slot_latch)

lemma GetFrame_latch:
  "GetFrame k s N lin = Inr (r, s1) \<Longrightarrow> LinearMode s \<Longrightarrow> LinearMode s1"
  by (auto simp: GetFrame_def GetFrameLinearInternal_def
           split: if_splits prod.splits option.splits
           dest!: run_latch GetFrameInternal_latch)

lemma fill_frames_latch:
  "fill_frames k n s i fsp v = Inr (v1, s1) \<Longrightarrow> LinearMode s \<Longrightarrow> LinearMode s1"
proof (induction n arbitrary: s i fsp v)
  case 0
  then show ?case by simp
next
  case (Suc n)
  from Suc.prems(1) obtain f s2 v2 where
    g: "GetFrame k s i False = Inr (Some f, s2)" and
    r: "fill_frames k n s2 (i + 1) (wrap64 (fsp + int (nb_samples f))) v2 = Inr (v1, s1)"
    by (auto split: sum.splits option.splits prod.splits)
  from GetFrame_latch[OF g Suc.prems(2)] Suc.IH[OF r] show ?case by blast
qed

lemma GetPlanarAudio_latch:
  "GetPlanarAudio k s bs st ct = Inr (out, s1) \<Longrightarrow> LinearMode s \<Longrightarrow> LinearMode s1"
  by (auto simp: GetPlanarAudio_def split: if_splits sum.splits prod.splits
           dest: fill_frames_latch)

text \<open>unseeked preservation on the linear path\<close>

lemma upt_slots: "[0..<MaxVideoSources] = [0, 1, 2]"
  by (simp add: MaxVideoSources_def upt_rec)

lemma scan_slots_range:
  "scan_slots s = (e, l) \<Longrightarrow> - 1 \<le> e \<and> e < int MaxVideoSources \<and> 0 \<le> l \<and> l < int MaxVideoSources"
  unfolding scan_slots_def upt_slots by (auto simp: MaxVideoSources_def split: if_splits)

lemma select_linear_range:
  "- 1 \<le> select_linear s N fu \<and> select_linear s N fu < int MaxVideoSources"
  unfolding select_linear_def upt_slots by (auto simp: MaxVideoSources_def split: option.splits)

lemma select_linear_unseeked:
  "0 \<le> select_linear s N fu \<Longrightarrow> Decoders s ! nat (select_linear s N fu) \<noteq> None"
  unfolding select_linear_def upt_slots by (auto split: option.splits if_splits)

lemma unseeked_update:
  "unseeked s \<Longrightarrow> (case d of None \<Rightarrow> True | Some x \<Rightarrow> \<not> Seeked x)
     \<Longrightarrow> unseeked (s\<lparr>Decoders := (Decoders s)[ix := d]\<rparr>)"
  by (auto simp: unseeked_def list_all_iff dest!: set_update_subset_insert[THEN subsetD])

lemma unseeked_nth:
  "unseeked s \<Longrightarrow> Decoders s ! ix = Some d \<Longrightarrow> ix < length (Decoders s) \<Longrightarrow> \<not> Seeked d"
  by (auto simp: unseeked_def list_all_length split: option.splits)

lemma linear_ok_update:
  "linear_ok s \<Longrightarrow> (case d of None \<Rightarrow> True | Some x \<Rightarrow> \<not> Seeked x)
     \<Longrightarrow> linear_ok (s\<lparr>Decoders := (Decoders s)[ix := d]\<rparr>)"
  using unseeked_update[of s d ix] by (simp add: linear_ok_def)

lemma linear_ok_cache [simp]: "linear_ok (s\<lparr>FrameCache := c\<rparr>) = linear_ok s"
  by (simp add: linear_ok_def unseeked_def)

lemma linear_ok_nth:
  "linear_ok s \<Longrightarrow> Decoders s ! ix = Some d \<Longrightarrow> ix < MaxVideoSources \<Longrightarrow> \<not> Seeked d"
  using unseeked_nth[of s ix d] by (simp add: linear_ok_def)

lemma GetNextFrame_Seeked: "GetNextFrame d = (F, d1) \<Longrightarrow> Seeked d1 = Seeked d"
  by (auto simp: GetNextFrame_def split: if_splits list.splits)

lemma SkipFrames_loop_Seeked: "Seeked (SkipFrames_loop n d) = Seeked d"
  by (induction n d rule: SkipFrames_loop.induct) (auto split: list.splits)

lemma SkipFrames_Seeked [simp]: "Seeked (SkipFrames d n) = Seeked d"
  by (simp add: SkipFrames_def SkipFrames_loop_Seeked)

lemma release_exhausted_linear_ok:
  "linear_ok s \<Longrightarrow> linear_ok (release_exhausted s ix)"
  using linear_ok_update[of s None ix] by (auto simp: release_exhausted_def split: option.splits)

lemma linear_decoder_slot_linear_ok:
  assumes "linear_decoder_slot s N fu = (s1, ix)" and "linear_ok s"
  shows "linear_ok s1 \<and> ix < MaxVideoSources"
proof -
  obtain e l where el: "scan_slots s = (e, l)" by (cases "scan_slots s")
  note rg = scan_slots_range[OF el] select_linear_range[of s N fu]
  let ?ix = "nat (if select_linear s N fu < 0 then (if 0 \<le> e then e else l) else select_linear s N fu)"
  have ix: "ix = ?ix" using assms(1) el by (auto simp: linear_decoder_slot_def Let_def)
  have lt: "?ix < MaxVideoSources" using rg by auto
  have "linear_ok (s\<lparr>Decoders := (Decoders s)[?ix := Some (new_LWAudioDecoder (Source s))]\<rparr>)"
    by (rule linear_ok_update[OF assms(2)]) (simp add: new_LWAudioDecoder_def)
  then have "linear_ok s1"
    using assms el by (auto simp: linear_decoder_slot_def Let_def linear_ok_def unseeked_def)
  with lt ix show ?thesis by simp
qed

lemma GetFrameLinear_lap_linear:
  assumes "GetFrameLinear_lap s N sf dp ix r = Inr c" and "linear_ok s" and "ix < MaxVideoSources"
  shows "linear_call c"
proof (cases "Decoders s ! ix")
  case None
  with assms show ?thesis by (auto simp: GetFrameLinear_lap_def)
next
  case (Some d)
  have ns: "\<not> Seeked d" using linear_ok_nth[OF assms(2) Some assms(3)] .
  obtain F d1 where g: "GetNextFrame d = (F, d1)" by (cases "GetNextFrame d")
  have ns1: "\<not> Seeked d1" using GetNextFrame_Seeked[OF g] ns by simp
  have ok1: "linear_ok (s\<lparr>Decoders := (Decoders s)[ix := Some d1]\<rparr>)"
    by (rule linear_ok_update[OF assms(2)]) (simp add: ns1)
  have ok2: "linear_ok (s\<lparr>Decoders := (Decoders s)[ix :=
                Some (SkipFrames d (wrap64 (N - PreRoll s - CurrentFrame d)))]\<rparr>)"
    by (rule linear_ok_update[OF assms(2)]) (simp add: ns)
  have ok3: "\<And>c0. linear_ok (s\<lparr>Decoders := (Decoders s)[ix := Some d1], FrameCache := c0\<rparr>)"
    using ok1 by (simp add: linear_ok_def unseeked_def)
  show ?thesis
    using assms Some g ns1 ok1 ok2
    by (auto simp: GetFrameLinear_lap_def linear_mismatch_def Let_def
             split: if_splits option.splits sum.splits
             intro!: release_exhausted_linear_ok ok3)
qed

lemma engine_step_linear:
  "engine_step N c = Inr c1 \<Longrightarrow> linear_call c \<Longrightarrow> linear_call c1"
  by (cases c)
     (auto simp: engine_step_def split: prod.splits
           dest: linear_decoder_slot_linear_ok GetFrameLinear_lap_linear)

lemma run_linear:
  assumes "run k N c = Inr (r, s1)" and "linear_call c"
  shows "linear_ok s1"
proof -
  have "linear_call (Return r s1)"
    by (rule run_invariant[where P = linear_call, OF _ assms(2) assms(1)])
       (rule engine_step_linear)
  then show ?thesis by simp
qed

lemma SetLinearMode_linear_ok: "\<not> LinearMode s \<Longrightarrow> linear_ok (SetLinearMode s)"
  by (simp add: SetLinearMode_def linear_ok_def unseeked_def list_all_iff)

lemma find_block_remove1: "find_block n xs = Some (b, r) \<Longrightarrow> r = remove1 b xs"
proof (induction xs arbitrary: r)
  case Nil then show ?case by simp
next
  case (Cons x xs)
  show ?case
  proof (cases "FrameNumber x = n")
    case True
    with Cons.prems show ?thesis by auto
  next
    case False
    with Cons.prems obtain r0 where r0: "find_block n xs = Some (b, r0)" "r = x # r0"
      by (auto split: option.splits)
    from find_block_Some[OF r0(1)] False have "b \<noteq> x" by auto
    with Cons.IH[OF r0(1)] r0(2) show ?thesis by simp
  qed
qed

lemma CacheFrame_inv:
  assumes "cache_inv c"
  shows "\<exists>c1. CacheFrame c n f = Inr c1 \<and> cache_inv c1 \<and> Size c1 \<le> MaxSize c1
           \<and> MaxSize c1 = MaxSize c
           \<and> evicted_to (c\<lparr>Data := new_CacheBlock n f
                                # filter (\<lambda>b. FrameNumber b \<noteq> n) (Data c)\<rparr>) c1"
proof -
  define nb where "nb = new_CacheBlock n f"
  define r where "r = filter (\<lambda>b. FrameNumber b \<noteq> n) (Data c)"
  define c1 where "c1 = (case find_block n (Data c) of None \<Rightarrow> c
              | Some (b, r) \<Rightarrow> c\<lparr>Size := Size c - BlockSize b, Data := r\<rparr>)"
  have sz: "Size c = sum_list (map BlockSize (Data c))" and di: "distinct (map FrameNumber (Data c))"
    using assms by (simp_all add: cache_inv_def)
  have c1all: "Data c1 = r \<and> Size c1 = sum_list (map BlockSize r) \<and> MaxSize c1 = MaxSize c"
  proof (cases "find_block n (Data c)")
    case None
    then have "c1 = c" by (simp add: c1_def)
    with sz find_block_None_filter[OF None] show ?thesis by (simp add: r_def)
  next
    case (Some p)
    obtain b r0 where p: "p = (b, r0)" by (cases p)
    note fb = find_block_Some[OF Some[unfolded p]]
    have ceq: "c1 = c\<lparr>Size := Size c - BlockSize b, Data := r0\<rparr>"
      using Some p by (simp add: c1_def)
    from fb di have r0: "r0 = r" by (simp add: r_def)
    from fb sz have "Size c - BlockSize b = sum_list (map BlockSize r0)" by simp
    with ceq r0 show ?thesis by simp
  qed
  then have c1: "Data c1 = r" "Size c1 = sum_list (map BlockSize r)" "MaxSize c1 = MaxSize c"
    by simp_all
  have dr: "distinct (map FrameNumber r)" using di by (simp add: r_def distinct_map_filter)
  have nr: "n \<notin> FrameNumber ` set r" by (auto simp: r_def)
  define c2 where "c2 = c1\<lparr>Data := nb # Data c1, Size := Size c1 + BlockSize nb\<rparr>"
  have fn: "FrameNumber nb = n" by (simp add: nb_def new_CacheBlock_def)
  have inv2: "cache_inv c2" using c1 fn dr nr by (simp add: cache_inv_def c2_def)
  from ApplyMaxSize_inv[OF inv2] obtain c3 where
    c3: "ApplyMaxSize c2 = Inr c3" "cache_inv c3" "Size c3 \<le> MaxSize c3"
        "MaxSize c3 = MaxSize c2" "evicted_to c2 c3" by blast
  have cf: "CacheFrame c n f = Inr c3"
    using c3(1) by (simp add: CacheFrame_def Let_def c2_def c1_def nb_def)
  have ev: "evicted_to (c\<lparr>Data := nb # r\<rparr>) c3"
    using c3(5) c1 by (simp add: evicted_to_def c2_def)
  have mx: "MaxSize c3 = MaxSize c" using c3(4) c1(3) by (simp add: c2_def)
  show ?thesis
    using cf c3(2,3) mx ev unfolding nb_def r_def by (intro exI[of _ c3]) simp
qed

lemma Cache_GetFrame_inv:
  assumes "cache_inv c"
  shows "cache_inv (snd (Cache_GetFrame c n)) \<and> Size (snd (Cache_GetFrame c n)) = Size c
         \<and> MaxSize (snd (Cache_GetFrame c n)) = MaxSize c"
proof (cases "find_block n (Data c)")
  case None
  with assms show ?thesis by (simp add: Cache_GetFrame_def)
next
  case (Some p)
  obtain b r where p: "p = (b, r)" by (cases p)
  note fb = find_block_Some[OF Some[unfolded p]]
  have sz: "Size c = sum_list (map BlockSize (Data c))" and di: "distinct (map FrameNumber (Data c))"
    using assms by (simp_all add: cache_inv_def)
  have eq: "snd (Cache_GetFrame c n) = c\<lparr>Data := b # r\<rparr>"
    using Some p by (simp add: Cache_GetFrame_def)
  from fb di have r: "r = filter (\<lambda>b. FrameNumber b \<noteq> n) (Data c)" "distinct (map FrameNumber r)"
    by blast+
  have "FrameNumber b \<notin> FrameNumber ` set r" using fb r(1) by auto
  moreover have "Size c = BlockSize b + sum_list (map BlockSize r)" using fb sz by simp
  ultimately have "cache_inv (c\<lparr>Data := b # r\<rparr>)" using r(2) by (simp add: cache_inv_def)
  with eq show ?thesis by simp
qed

text \<open>
  C8. On a cache whose counter is the sum of the block sizes and that holds one block for
  each frame number, every operation keeps both facts and the bound: \<^verbatim>\<open>CacheFrame\<close> drops
  the block of the same frame number, puts the new block at the front and evicts from the
  back until \<open>Size \<le> MaxSize\<close>; \<^verbatim>\<open>SetMaxSize\<close> sets the cap and evicts the same way;
  \<^verbatim>\<open>Clear\<close> empties the cache; \<^verbatim>\<open>Cache::GetFrame\<close> only reorders the blocks. What
  eviction leaves is the longest prefix of the blocks within the bound.
\<close>

theorem frame_cache_invariant:
  assumes "cache_inv c"
  shows "(\<exists>c1. CacheFrame c n f = Inr c1 \<and> cache_inv c1 \<and> Size c1 \<le> MaxSize c1
            \<and> MaxSize c1 = MaxSize c
            \<and> evicted_to (c\<lparr>Data := new_CacheBlock n f
                                 # filter (\<lambda>b. FrameNumber b \<noteq> n) (Data c)\<rparr>) c1)
       \<and> (\<exists>c2. SetMaxSize c m = Inr c2 \<and> cache_inv c2 \<and> Size c2 \<le> MaxSize c2
            \<and> MaxSize c2 = m \<and> evicted_to (c\<lparr>MaxSize := m\<rparr>) c2)
       \<and> cache_inv (Clear c) \<and> Size (Clear c) = 0 \<and> Data (Clear c) = []
       \<and> MaxSize (Clear c) = MaxSize c
       \<and> cache_inv (snd (Cache_GetFrame c n)) \<and> Size (snd (Cache_GetFrame c n)) = Size c
       \<and> MaxSize (snd (Cache_GetFrame c n)) = MaxSize c"
proof -
  have inv: "cache_inv (c\<lparr>MaxSize := m\<rparr>)" using assms by (simp add: cache_inv_def)
  from ApplyMaxSize_inv[OF inv]
  have "\<exists>c2. SetMaxSize c m = Inr c2 \<and> cache_inv c2 \<and> Size c2 \<le> MaxSize c2
            \<and> MaxSize c2 = m \<and> evicted_to (c\<lparr>MaxSize := m\<rparr>) c2"
    by (auto simp: SetMaxSize_def)
  moreover have "cache_inv (Clear c) \<and> Size (Clear c) = 0 \<and> Data (Clear c) = []
       \<and> MaxSize (Clear c) = MaxSize c"
    by (simp add: Clear_def cache_inv_def)
  ultimately show ?thesis
    using CacheFrame_inv[OF assms, of n f] Cache_GetFrame_inv[OF assms, of n] by simp
qed

lemma demo_cache_inv: "cache_inv demo_cache"
  by (simp add: cache_inv_def demo_cache_def new_CacheBlock_def pcm_frame_def)

theorem frame_cache_invariant_witness:
  "cache_inv demo_cache
   \<and> CacheFrame demo_cache 3 (pcm_frame True 1 4 [[9, 9, 9, 9]])
       = Inr \<lparr>Data = [new_CacheBlock 3 (pcm_frame True 1 4 [[9, 9, 9, 9]]),
                      new_CacheBlock 1 (pcm_frame True 1 4 [[1, 2, 3, 4]])],
              Size = 8, MaxSize = 10\<rparr>
   \<and> (\<exists>c1. CacheFrame demo_cache 3 (pcm_frame True 1 4 [[9, 9, 9, 9]]) = Inr c1
          \<and> cache_inv c1 \<and> Size c1 \<le> MaxSize c1)"
proof -
  have ev: "CacheFrame demo_cache 3 (pcm_frame True 1 4 [[9, 9, 9, 9]])
       = Inr \<lparr>Data = [new_CacheBlock 3 (pcm_frame True 1 4 [[9, 9, 9, 9]]),
                      new_CacheBlock 1 (pcm_frame True 1 4 [[1, 2, 3, 4]])],
              Size = 8, MaxSize = 10\<rparr>"
    by (simp add: CacheFrame_def demo_cache_def new_CacheBlock_def pcm_frame_def
                  ApplyMaxSize.simps Let_def)
  have "\<exists>c1. CacheFrame demo_cache 3 (pcm_frame True 1 4 [[9, 9, 9, 9]]) = Inr c1
          \<and> cache_inv c1 \<and> Size c1 \<le> MaxSize c1
          \<and> MaxSize c1 = MaxSize demo_cache
          \<and> evicted_to (demo_cache\<lparr>Data := new_CacheBlock 3 (pcm_frame True 1 4 [[9, 9, 9, 9]])
                                 # filter (\<lambda>b. FrameNumber b \<noteq> 3) (Data demo_cache)\<rparr>) c1"
    using frame_cache_invariant[OF demo_cache_inv, of 3 "pcm_frame True 1 4 [[9, 9, 9, 9]]" 0]
    by (rule conjunct1)
  then have "\<exists>c1. CacheFrame demo_cache 3 (pcm_frame True 1 4 [[9, 9, 9, 9]]) = Inr c1
          \<and> cache_inv c1 \<and> Size c1 \<le> MaxSize c1"
    by (elim exE conjE) (intro exI conjI; assumption)
  with ev demo_cache_inv show ?thesis by (intro conjI)
qed

text \<open>
  C10. For an ordinal in \<open>[0, NumFrames)\<close> that has a block in the cache, \<^verbatim>\<open>GetFrame\<close>
  returns the frame of that block for either value of \<^verbatim>\<open>Linear\<close> and for any fuel, also
  none: no decoder runs. The state after the call is the state before with the block moved
  to the front of the cache; the decoder slots, their use counters, the bad seek
  locations, the linear-mode flag and the cache's size and cap are the same.
\<close>

theorem cache_hit_returns_cached_frame:
  assumes "0 \<le> N" and "N < NumFrames s"
      and "N \<in> FrameNumber ` set (Data (FrameCache s))"
  shows "\<exists>b s1. b \<in> set (Data (FrameCache s)) \<and> FrameNumber b = N
           \<and> GetFrame fuel s N lin = Inr (Some (Frame b), s1)
           \<and> s1 = s\<lparr>FrameCache := (FrameCache s)\<lparr>Data := b # remove1 b (Data (FrameCache s))\<rparr>\<rparr>
           \<and> Decoders s1 = Decoders s \<and> DecoderLastUse s1 = DecoderLastUse s
           \<and> DecoderSequenceNum s1 = DecoderSequenceNum s
           \<and> BadSeekLocations s1 = BadSeekLocations s \<and> LinearMode s1 = LinearMode s
           \<and> Size (FrameCache s1) = Size (FrameCache s)
           \<and> MaxSize (FrameCache s1) = MaxSize (FrameCache s)"
proof -
  from assms(3) obtain p where p: "find_block N (Data (FrameCache s)) = Some p"
    using find_block_None[of N "Data (FrameCache s)"] by (cases "find_block N (Data (FrameCache s))") auto
  obtain b r where br: "p = (b, r)" by (cases p)
  note fb = p[unfolded br]
  from find_block_Some[OF fb] have b: "b \<in> set (Data (FrameCache s))" "FrameNumber b = N" by auto
  have r: "r = remove1 b (Data (FrameCache s))" by (rule find_block_remove1[OF fb])
  have "GetFrame fuel s N lin
          = Inr (Some (Frame b), s\<lparr>FrameCache := (FrameCache s)\<lparr>Data := b # r\<rparr>\<rparr>)"
    using assms(1,2) fb by (simp add: GetFrame_def Cache_GetFrame_def)
  with b r show ?thesis
    by (intro exI[of _ b] exI[of _ "s\<lparr>FrameCache := (FrameCache s)\<lparr>Data := b # r\<rparr>\<rparr>"]) simp
qed

lemma run_Return [simp]: "run k N (Return r s) = Inr (r, s)"
  by (cases k) simp_all

lemma run_step:
  "engine_step N c = Inr c1 \<Longrightarrow> (\<And>r s. c \<noteq> Return r s) \<Longrightarrow> run (Suc k) N c = run k N c1"
  by (cases c) auto

lemma run_more_fuel: "run k N c = Inr x \<Longrightarrow> run (k + j) N c = Inr x"
proof (induction k arbitrary: c)
  case 0
  then show ?case by (cases c) auto
next
  case (Suc k)
  from run_Suc_Inr[OF Suc.prems] show ?case
  proof
    assume "\<exists>r s. c = Return r s \<and> x = (r, s)"
    then show ?thesis by auto
  next
    assume "\<exists>c1. engine_step N c = Inr c1 \<and> run k N c1 = Inr x"
    then obtain c1 where c1: "engine_step N c = Inr c1" "run k N c1 = Inr x" by blast
    show ?thesis
    proof (cases "\<exists>r s. c = Return r s")
      case True
      with Suc.prems show ?thesis by auto
    next
      case False
      then have "run (Suc (k + j)) N c = run (k + j) N c1"
        using c1(1) by (intro run_step) auto
      with Suc.IH[OF c1(2)] show ?thesis by simp
    qed
  qed
qed

lemma GetFrame_linear_ok:
  assumes "linear_ok s" and "GetFrame fuel s N lin = Inr (r, s1)"
  shows "linear_ok s1"
proof -
  have lm: "LinearMode s" using assms(1) by (simp add: linear_ok_def)
  show ?thesis
  proof (cases "N < 0 \<or> N \<ge> NumFrames s")
    case True
    with assms show ?thesis by (simp add: GetFrame_def)
  next
    case False
    show ?thesis
    proof (cases "find_block N (Data (FrameCache s))")
      case (Some p)
      obtain b q where "p = (b, q)" by (cases p)
      with Some False assms(2)
      have "s1 = s\<lparr>FrameCache := (FrameCache s)\<lparr>Data := b # q\<rparr>\<rparr>"
        by (simp add: GetFrame_def Cache_GetFrame_def)
      with assms(1) show ?thesis by simp
    next
      case None
      with False assms(2) lm have "run fuel N (CallLinear s (- 1) 0 False) = Inr (r, s1)"
        by (simp add: GetFrame_def Cache_GetFrame_def GetFrameInternal_def
                      GetFrameLinearInternal_def split: if_splits)
      then show ?thesis by (rule run_linear) (simp add: assms(1))
    qed
  qed
qed

text \<open>
  C7. \<^verbatim>\<open>SetLinearMode\<close>, entered with the latch clear as its assertion requires, empties the
  frame cache, resets every decoder slot and sets the latch; the latch is set after it in
  any case. With the latch set, every \<^verbatim>\<open>GetFrame\<close> of an ordinal in range that the cache
  does not hold is the linear path, \<^verbatim>\<open>GetFrameLinearInternal(N, -1, 0, false)\<close>, for both
  values of the linear hint, and so is \<^verbatim>\<open>GetFrameInternal\<close>. From the state that
  \<^verbatim>\<open>SetLinearMode\<close> leaves, no step of the engine enters \<^verbatim>\<open>SeekAndDecode\<close> and every
  decoder stays never-seeked, across steps and across \<^verbatim>\<open>GetFrame\<close> calls. No step of the
  engine and no public operation (\<^verbatim>\<open>GetFrame\<close>, \<^verbatim>\<open>GetPlanarAudio\<close>,
  \<^verbatim>\<open>SetMaxCacheSize\<close>, \<^verbatim>\<open>SetSeekPreRoll\<close>) clears the latch.
\<close>

theorem linear_mode_is_latched:
  "(\<not> LinearMode s \<longrightarrow>
       Data (FrameCache (SetLinearMode s)) = [] \<and> Size (FrameCache (SetLinearMode s)) = 0
       \<and> Decoders (SetLinearMode s) = replicate MaxVideoSources None
       \<and> linear_ok (SetLinearMode s))
   \<and> LinearMode (SetLinearMode s)
   \<and> (LinearMode s \<and> 0 \<le> N \<and> N < NumFrames s
        \<and> N \<notin> FrameNumber ` set (Data (FrameCache s)) \<longrightarrow>
        GetFrame fuel s N lin = GetFrameLinearInternal fuel s N (- 1) 0 False)
   \<and> (LinearMode s \<longrightarrow>
        GetFrameInternal fuel s N = GetFrameLinearInternal fuel s N (- 1) 0 False)
   \<and> (linear_call c \<and> engine_step N c = Inr c1 \<longrightarrow> linear_call c1)
   \<and> (LinearMode (call_state c) \<and> engine_step N c = Inr c1 \<longrightarrow> LinearMode (call_state c1))
   \<and> (LinearMode s \<and> GetFrame fuel s N lin = Inr (r, s1) \<longrightarrow> LinearMode s1)
   \<and> (linear_ok s \<and> GetFrame fuel s N lin = Inr (r, s1) \<longrightarrow> linear_ok s1)
   \<and> (LinearMode s \<and> GetPlanarAudio fuel s bs st ct = Inr (out, s2) \<longrightarrow> LinearMode s2)
   \<and> (LinearMode s \<and> SetMaxCacheSize s m = Inr s3 \<longrightarrow> LinearMode s3)
   \<and> LinearMode (SetSeekPreRoll s n) = LinearMode s"
proof (intro conjI impI)
  assume "\<not> LinearMode s"
  then show "Data (FrameCache (SetLinearMode s)) = []" "Size (FrameCache (SetLinearMode s)) = 0"
    "Decoders (SetLinearMode s) = replicate MaxVideoSources None"
    by (simp_all add: SetLinearMode_def Clear_def)
next
  assume "\<not> LinearMode s"
  then show "linear_ok (SetLinearMode s)" by (rule SetLinearMode_linear_ok)
next
  show "LinearMode (SetLinearMode s)" by simp
next
  assume a: "LinearMode s \<and> 0 \<le> N \<and> N < NumFrames s
               \<and> N \<notin> FrameNumber ` set (Data (FrameCache s))"
  then have "find_block N (Data (FrameCache s)) = None" by (simp add: find_block_None)
  with a show "GetFrame fuel s N lin = GetFrameLinearInternal fuel s N (- 1) 0 False"
    by (simp add: GetFrame_def Cache_GetFrame_def GetFrameInternal_def)
next
  assume "LinearMode s"
  then show "GetFrameInternal fuel s N = GetFrameLinearInternal fuel s N (- 1) 0 False"
    by (simp add: GetFrameInternal_def)
next
  assume "linear_call c \<and> engine_step N c = Inr c1"
  then show "linear_call c1" using engine_step_linear by blast
next
  assume "LinearMode (call_state c) \<and> engine_step N c = Inr c1"
  then show "LinearMode (call_state c1)" using engine_step_latch by blast
next
  assume "LinearMode s \<and> GetFrame fuel s N lin = Inr (r, s1)"
  then show "LinearMode s1" using GetFrame_latch by blast
next
  assume "linear_ok s \<and> GetFrame fuel s N lin = Inr (r, s1)"
  then show "linear_ok s1" using GetFrame_linear_ok by blast
next
  assume "LinearMode s \<and> GetPlanarAudio fuel s bs st ct = Inr (out, s2)"
  then show "LinearMode s2" using GetPlanarAudio_latch by blast
next
  assume "LinearMode s \<and> SetMaxCacheSize s m = Inr s3"
  then show "LinearMode s3" by (auto simp: SetMaxCacheSize_def split: sum.splits)
next
  show "LinearMode (SetSeekPreRoll s n) = LinearMode s" by (simp add: SetSeekPreRoll_def)
qed

lemma upt3: "[0..<3] = [0, 1, 2]"
  by (simp add: upt_rec)

lemma run_fuel:
  "0 < k \<Longrightarrow> run k N c =
     (case c of
        Return r s \<Rightarrow> Inr (r, s)
      | _ \<Rightarrow> (case engine_step N c of Inl e \<Rightarrow> Inl e | Inr c1 \<Rightarrow> run (k - 1) N c1))"
  by (cases k; cases c) (auto split: sum.splits)

lemmas weak_congs = sum.case_cong_weak call.case_cong_weak option.case_cong_weak
  prod.case_cong_weak list.case_cong_weak if_weak_cong

lemmas slot_eval = linear_decoder_slot_def seek_decoder_slot_def select_linear_def scan_slots_def
  nearby_decoder_def MaxVideoSources_def upt3 new_LWAudioDecoder_def

lemmas lap_eval = GetFrameLinear_lap_def GetNextFrame_def release_exhausted_def
  linear_mismatch_def CacheFrame_def new_CacheBlock_def ApplyMaxSize.simps

lemmas engine_eval = GetFrame_def Cache_GetFrame_def GetFrameInternal_def
  GetFrameLinearInternal_def SeekAndDecode_def engine_step_def run_fuel slot_eval lap_eval Let_def
  wrap64_def SkipFrames_def

lemma SetLinearMode_demo:
  "SetLinearMode demo_source_cached =
     demo_source\<lparr>LinearMode := True, Decoders := [None, None, None]\<rparr>"
  by (simp add: SetLinearMode_def demo_source_cached_def demo_source_def Clear_def
                MaxVideoSources_def numeral_3_eq_3)

lemma GetFrame_demo_latched:
  "GetFrame 3 (demo_source\<lparr>LinearMode := True, Decoders := [None, None, None]\<rparr>) 0 False
     = Inr (Some (pcm_frame True 1 4 [[1, 2, 3, 4]]),
            demo_source\<lparr>LinearMode := True,
              FrameCache := \<lparr>Data = [new_CacheBlock 0 (pcm_frame True 1 4 [[1, 2, 3, 4]])],
                              Size = 4, MaxSize = 100\<rparr>,
              Decoders := [None, None,
                           Some \<lparr>pending = [], CurrentFrame = 1, CurrentSample = 4,
                                  Seeked = False, DecodeSuccess = True\<rparr>],
              DecoderSequenceNum := 1\<rparr>)"
  by (simp add: engine_eval demo_source_def demo_media_def pcm_frame_def cong: weak_congs)

lemma engine_step_demo_latched:
  "engine_step 0 (CallLinear (demo_source\<lparr>LinearMode := True, Decoders := [None, None, None]\<rparr>)
                    (- 1) 0 False)
     = Inr (LapLinear
              (demo_source\<lparr>LinearMode := True,
                 Decoders := [None, None,
                              Some \<lparr>pending = [pcm_frame True 1 4 [[1, 2, 3, 4]]],
                                     CurrentFrame = 0, CurrentSample = 0, Seeked = False,
                                     DecodeSuccess = True\<rparr>],
                 DecoderSequenceNum := 1\<rparr>)
              (- 1) 0 2 None)"
  by (simp add: engine_step_def slot_eval Let_def demo_source_def demo_media_def pcm_frame_def)

theorem linear_mode_is_latched_witness:
  "\<not> LinearMode demo_source_cached
   \<and> Data (FrameCache demo_source_cached) \<noteq> []
   \<and> Data (FrameCache (SetLinearMode demo_source_cached)) = []
   \<and> Decoders (SetLinearMode demo_source_cached) = [None, None, None]
   \<and> LinearMode (SetLinearMode demo_source_cached)
   \<and> (0::int) \<le> 0 \<and> 0 < NumFrames (SetLinearMode demo_source_cached)
   \<and> 0 \<notin> FrameNumber ` set (Data (FrameCache (SetLinearMode demo_source_cached)))
   \<and> GetFrame 3 (SetLinearMode demo_source_cached) 0 False
       = GetFrameLinearInternal 3 (SetLinearMode demo_source_cached) 0 (- 1) 0 False
   \<and> (\<exists>s1. GetFrameLinearInternal 3 (SetLinearMode demo_source_cached) 0 (- 1) 0 False
              = Inr (Some (pcm_frame True 1 4 [[1, 2, 3, 4]]), s1)
          \<and> LinearMode s1 \<and> linear_ok s1)
   \<and> linear_call (CallLinear (SetLinearMode demo_source_cached) (- 1) 0 False)
   \<and> (\<exists>s1. engine_step 0 (CallLinear (SetLinearMode demo_source_cached) (- 1) 0 False)
              = Inr (LapLinear s1 (- 1) 0 2 None)
          \<and> linear_call (LapLinear s1 (- 1) 0 2 None))"
proof -
  have n: "\<not> LinearMode demo_source_cached"
    by (simp add: demo_source_cached_def demo_source_def)
  have ne: "Data (FrameCache demo_source_cached) \<noteq> []"
    by (simp add: demo_source_cached_def)
  note th0 = linear_mode_is_latched[where s = demo_source_cached]
  from th0 n have a: "Data (FrameCache (SetLinearMode demo_source_cached)) = []"
    and b: "Decoders (SetLinearMode demo_source_cached) = replicate MaxVideoSources None"
    and ok: "linear_ok (SetLinearMode demo_source_cached)"
    and l: "LinearMode (SetLinearMode demo_source_cached)"
    by blast+
  have rg: "(0::int) \<le> 0" "0 < NumFrames (SetLinearMode demo_source_cached)"
    by (simp_all add: SetLinearMode_demo) (simp add: demo_source_def)
  from a have nc: "0 \<notin> FrameNumber ` set (Data (FrameCache (SetLinearMode demo_source_cached)))"
    by simp
  obtain s1 where g: "GetFrame 3 (SetLinearMode demo_source_cached) 0 False
                        = Inr (Some (pcm_frame True 1 4 [[1, 2, 3, 4]]), s1)"
    using GetFrame_demo_latched SetLinearMode_demo by simp
  note th1 = linear_mode_is_latched[where s = "SetLinearMode demo_source_cached" and fuel = 3
                  and N = 0 and lin = False and r = "Some (pcm_frame True 1 4 [[1, 2, 3, 4]])"
                  and ?s1.0 = s1]
  from th1 l rg nc have eq: "GetFrame 3 (SetLinearMode demo_source_cached) 0 False
       = GetFrameLinearInternal 3 (SetLinearMode demo_source_cached) 0 (- 1) 0 False"
    by blast
  from th1 l g have l1: "LinearMode s1" by blast
  from th1 ok g have ok1: "linear_ok s1" by blast
  from b have b3: "Decoders (SetLinearMode demo_source_cached) = [None, None, None]"
    by (simp add: MaxVideoSources_def numeral_3_eq_3)
  from g eq l1 ok1
  have lin: "\<exists>s1. GetFrameLinearInternal 3 (SetLinearMode demo_source_cached) 0 (- 1) 0 False
                     = Inr (Some (pcm_frame True 1 4 [[1, 2, 3, 4]]), s1)
                 \<and> LinearMode s1 \<and> linear_ok s1"
    by auto
  from ok have lc: "linear_call (CallLinear (SetLinearMode demo_source_cached) (- 1) 0 False)"
    by simp
  obtain s2 where st: "engine_step 0 (CallLinear (SetLinearMode demo_source_cached) (- 1) 0 False)
                         = Inr (LapLinear s2 (- 1) 0 2 None)"
    using engine_step_demo_latched SetLinearMode_demo by simp
  note th2 = linear_mode_is_latched[where N = 0
                  and c = "CallLinear (SetLinearMode demo_source_cached) (- 1) 0 False"
                  and ?c1.0 = "LapLinear s2 (- 1) 0 2 None"]
  from th2 lc st have "linear_call (LapLinear s2 (- 1) 0 2 None)" by blast
  with st have stp: "\<exists>s1. engine_step 0 (CallLinear (SetLinearMode demo_source_cached) (- 1) 0 False)
              = Inr (LapLinear s1 (- 1) 0 2 None)
          \<and> linear_call (LapLinear s1 (- 1) 0 2 None)" by blast
  from n ne a b3 l rg nc eq lin lc stp show ?thesis by (intro conjI)
qed

theorem cache_hit_returns_cached_frame_witness:
  "(0::int) \<le> 0 \<and> 0 < NumFrames demo_source_cached
   \<and> 0 \<in> FrameNumber ` set (Data (FrameCache demo_source_cached))
   \<and> GetFrame 0 demo_source_cached 0 False
        = Inr (Some (pcm_frame True 1 4 [[1, 2, 3, 4]]), demo_source_cached)
   \<and> GetFrame 0 demo_source_cached 0 True
        = Inr (Some (pcm_frame True 1 4 [[1, 2, 3, 4]]), demo_source_cached)"
proof -
  have h: "(0::int) \<le> 0" "0 < NumFrames demo_source_cached"
    "0 \<in> FrameNumber ` set (Data (FrameCache demo_source_cached))"
    by (simp_all add: demo_source_cached_def demo_source_def new_CacheBlock_def)
  have d: "Data (FrameCache demo_source_cached)
             = [new_CacheBlock 0 (pcm_frame True 1 4 [[1, 2, 3, 4]])]"
    by (simp add: demo_source_cached_def)
  have same: "demo_source_cached\<lparr>FrameCache := (FrameCache demo_source_cached)
                \<lparr>Data := [new_CacheBlock 0 (pcm_frame True 1 4 [[1, 2, 3, 4]])]\<rparr>\<rparr>
              = demo_source_cached"
    by (simp add: demo_source_cached_def demo_source_def)
  have r: "GetFrame 0 demo_source_cached 0 lin
             = Inr (Some (pcm_frame True 1 4 [[1, 2, 3, 4]]), demo_source_cached)" for lin
  proof -
    from cache_hit_returns_cached_frame[OF h, of 0 lin] obtain b s1 where
      b: "b \<in> set (Data (FrameCache demo_source_cached))"
         "GetFrame 0 demo_source_cached 0 lin = Inr (Some (Frame b), s1)"
         "s1 = demo_source_cached\<lparr>FrameCache := (FrameCache demo_source_cached)
                 \<lparr>Data := b # remove1 b (Data (FrameCache demo_source_cached))\<rparr>\<rparr>"
      by blast
    from b(1) d have be: "b = new_CacheBlock 0 (pcm_frame True 1 4 [[1, 2, 3, 4]])" by simp
    with b(3) d same have "s1 = demo_source_cached" by simp
    with b(2) be show ?thesis by (simp add: new_CacheBlock_def)
  qed
  from h r[of False] r[of True] show ?thesis by (intro conjI)
qed

lemma wrap64_id: "- (2 ^ 63) \<le> x \<Longrightarrow> x < 2 ^ 63 \<Longrightarrow> wrap64 x = x"
  by (simp add: wrap64_def)

lemma starts_from_last:
  "starts_from a fs \<Longrightarrow> fs \<noteq> [] \<Longrightarrow> 0 \<le> a \<Longrightarrow> list_all (\<lambda>f. 0 \<le> Length f) fs \<Longrightarrow>
   a + sum_list (map Length fs) < 2 ^ 63 \<Longrightarrow>
     Start (last fs) + Length (last fs) = a + sum_list (map Length fs)"
proof (induction fs arbitrary: a)
  case Nil
  then show ?case by simp
next
  case (Cons f fs)
  from Cons.prems have nn: "0 \<le> Length f" "list_all (\<lambda>f. 0 \<le> Length f) fs" by simp_all
  from nn(2) have "0 \<le> sum_list (map Length fs)"
    by (intro sum_list_nonneg) (auto simp: list_all_iff)
  with Cons.prems nn have w: "wrap64 (a + Length f) = a + Length f"
    by (intro wrap64_id) simp_all
  show ?case
  proof (cases "fs = []")
    case True
    with Cons.prems show ?thesis by simp
  next
    case False
    from Cons.prems w have "starts_from (a + Length f) fs" by simp
    from Cons.IH[OF this False _ nn(2)] Cons.prems(3,5) nn(1) False show ?thesis by simp
  qed
qed

lemma scan_frames_finds:
  "starts_from a fs \<Longrightarrow> 0 \<le> a \<Longrightarrow> list_all (\<lambda>f. 0 \<le> Length f) fs \<Longrightarrow>
   a + sum_list (map Length fs) < 2 ^ 63 \<Longrightarrow> a \<le> p \<Longrightarrow> p < a + sum_list (map Length fs)
     \<Longrightarrow> \<exists>k < length fs. scan_frames fs i p = i + int k
           \<and> Start (fs ! k) \<le> p \<and> p < Start (fs ! k) + Length (fs ! k)"
proof (induction fs arbitrary: a i)
  case Nil
  then show ?case by simp
next
  case (Cons f fs)
  from Cons.prems have nn: "0 \<le> Length f" "list_all (\<lambda>f. 0 \<le> Length f) fs"
    and st: "Start f = a" by simp_all
  from nn(2) have sn: "0 \<le> sum_list (map Length fs)"
    by (intro sum_list_nonneg) (auto simp: list_all_iff)
  with Cons.prems nn have w: "wrap64 (a + Length f) = a + Length f"
    by (intro wrap64_id) simp_all
  show ?case
  proof (cases "p < a + Length f")
    case True
    with Cons.prems(5) st w
    have "(0::nat) < length (f # fs) \<and> scan_frames (f # fs) i p = i + int 0
                 \<and> Start ((f # fs) ! 0) \<le> p
                 \<and> p < Start ((f # fs) ! 0) + Length ((f # fs) ! 0)" by simp
    then show ?thesis by blast
  next
    case False
    from Cons.prems(1) w have sf: "starts_from (a + Length f) fs" by simp
    have r: "0 \<le> a + Length f" "a + Length f + sum_list (map Length fs) < 2 ^ 63"
      "a + Length f \<le> p" "p < a + Length f + sum_list (map Length fs)"
      using Cons.prems nn False by simp_all
    from Cons.IH[OF sf r(1) nn(2) r(2,3,4), of "i + 1"] obtain k where
      k: "k < length fs" "scan_frames fs (i + 1) p = i + 1 + int k"
         "Start (fs ! k) \<le> p" "p < Start (fs ! k) + Length (fs ! k)" by blast
    have "Suc k < length (f # fs) \<and> scan_frames (f # fs) i p = i + int (Suc k)
            \<and> Start ((f # fs) ! Suc k) \<le> p
            \<and> p < Start ((f # fs) ! Suc k) + Length ((f # fs) ! Suc k)"
      using k False st w by simp
    then show ?thesis by blast
  qed
qed

lemma starts_from_hd: "starts_from a fs \<Longrightarrow> fs \<noteq> [] \<Longrightarrow> Start (fs ! 0) = a"
  by (cases fs) auto

text \<open>
  C4 (amended). On the index of an opened source \<^verbatim>\<open>GetFrameRangeBySamples\<close> returns a range,
  and the range is the empty one (\<open>First = -1\<close>) exactly when \<open>count \<le> 0\<close> or
  \<open>start \<ge> NumSamples\<close>. In a non-empty result \<open>First\<close> is an ordinal of the index and
  \<open>FirstSamplePos\<close> is that frame's \<open>Start\<close>. For \<open>start \<ge> 0\<close> the frame holds the sample:
  \<open>FirstSamplePos \<le> start < FirstSamplePos + Length\<close>. For \<open>start < 0\<close> the first frame is
  frame 0 and \<open>FirstSamplePos = 0\<close>, which is above \<open>start\<close>.
\<close>

theorem frame_range_for_samples:
  assumes "index_ok s"
  shows "\<exists>r. GetFrameRangeBySamples s start count = Inr r
           \<and> (First r = - 1 \<longleftrightarrow> count \<le> 0 \<or> start \<ge> NumSamples s)
           \<and> (First r \<noteq> - 1 \<longrightarrow>
                 0 \<le> First r \<and> First r < NumFrames s
                 \<and> FirstSamplePos r = Start (Frames s ! nat (First r))
                 \<and> (0 \<le> start \<longrightarrow>
                       FirstSamplePos r \<le> start
                       \<and> start < FirstSamplePos r + Length (Frames s ! nat (First r)))
                 \<and> (start < 0 \<longrightarrow> First r = 0 \<and> FirstSamplePos r = 0))"
proof -
  from assms have ne: "Frames s \<noteq> []" and sf: "starts_from 0 (Frames s)"
    and nf: "NumFrames s = int (length (Frames s))"
    and ns: "NumSamples s = wrap64 (Start (last (Frames s)) + Length (last (Frames s)))"
    and nn: "list_all (\<lambda>f. 0 \<le> Length f) (Frames s)"
    and bd: "0 + sum_list (map Length (Frames s)) < 2 ^ 63"
    by (simp_all add: index_ok_def)
  from nn have sn: "0 \<le> sum_list (map Length (Frames s))"
    by (intro sum_list_nonneg) (auto simp: list_all_iff)
  from starts_from_last[OF sf ne _ nn bd]
  have "Start (last (Frames s)) + Length (last (Frames s)) = sum_list (map Length (Frames s))"
    by simp
  with ns sn bd have tot: "NumSamples s = sum_list (map Length (Frames s))"
    by (simp add: wrap64_id)
  define rl where "rl = (if wrap64 (start + count) \<ge> NumSamples s then wrap64 (NumFrames s - 1)
                         else scan_frames (Frames s) 0 (wrap64 (wrap64 (start + count) - 1)))"
  show ?thesis
  proof (cases "count \<le> 0 \<or> start \<ge> NumSamples s")
    case True
    then have "GetFrameRangeBySamples s start count
                 = Inr \<lparr>First = - 1, Last = - 1, FirstSamplePos = - 1\<rparr>"
      by (simp add: GetFrameRangeBySamples_def)
    with True show ?thesis by simp
  next
    case False
    show ?thesis
    proof (cases "start < 0")
      case True
      from ne have len: "0 < length (Frames s)" by simp
      have "GetFrameRangeBySamples s start count
              = Inr \<lparr>First = 0, Last = rl, FirstSamplePos = Start (Frames s ! 0)\<rparr>"
        using False True len by (simp add: GetFrameRangeBySamples_def Let_def rl_def)
      with starts_from_hd[OF sf ne] False True nf len show ?thesis by simp
    next
      case nonneg: False
      with False tot have "0 \<le> start" "start < 0 + sum_list (map Length (Frames s))" by simp_all
      from scan_frames_finds[OF sf _ nn bd this, of 0] obtain k where
        k: "k < length (Frames s)" "scan_frames (Frames s) 0 start = int k"
           "Start (Frames s ! k) \<le> start" "start < Start (Frames s ! k) + Length (Frames s ! k)"
        by auto
      have "GetFrameRangeBySamples s start count
              = Inr \<lparr>First = int k, Last = rl, FirstSamplePos = Start (Frames s ! k)\<rparr>"
        using False nonneg k(1,2) by (simp add: GetFrameRangeBySamples_def Let_def rl_def)
      with k False nonneg nf show ?thesis by simp
    qed
  qed
qed

lemma demo_index_ok: "index_ok demo_source"
  by (simp add: index_ok_def demo_source_def demo_media_def pcm_frame_def wrap64_def)

theorem frame_range_for_samples_witness:
  "index_ok demo_source
   \<and> GetFrameRangeBySamples demo_source 1 2 = Inr \<lparr>First = 0, Last = 0, FirstSamplePos = 0\<rparr>
   \<and> (\<exists>r. GetFrameRangeBySamples demo_source 1 2 = Inr r \<and> First r \<noteq> - 1
          \<and> FirstSamplePos r \<le> 1
          \<and> 1 < FirstSamplePos r + Length (Frames demo_source ! nat (First r)))"
proof -
  have ev: "GetFrameRangeBySamples demo_source 1 2
              = Inr \<lparr>First = 0, Last = 0, FirstSamplePos = 0\<rparr>"
    by (simp add: GetFrameRangeBySamples_def demo_source_def demo_media_def pcm_frame_def Let_def
                  wrap64_def)
  from frame_range_for_samples[OF demo_index_ok, of 1 2] obtain r where
    r: "GetFrameRangeBySamples demo_source 1 2 = Inr r"
       "First r = - 1 \<longleftrightarrow> (2::int) \<le> 0 \<or> 1 \<ge> NumSamples demo_source"
       "First r \<noteq> - 1 \<longrightarrow> ((0::int) \<le> 1 \<longrightarrow> FirstSamplePos r \<le> 1
             \<and> 1 < FirstSamplePos r + Length (Frames demo_source ! nat (First r)))"
    by blast
  have "NumSamples demo_source = 4" by (simp add: demo_source_def)
  with r(2) have f: "First r \<noteq> - 1" by simp
  with r(3) have "FirstSamplePos r \<le> 1
      \<and> 1 < FirstSamplePos r + Length (Frames demo_source ! nat (First r))" by simp
  with r(1) f have "\<exists>r. GetFrameRangeBySamples demo_source 1 2 = Inr r \<and> First r \<noteq> - 1
          \<and> FirstSamplePos r \<le> 1
          \<and> 1 < FirstSamplePos r + Length (Frames demo_source ! nat (First r))" by blast
  with demo_index_ok ev show ?thesis by (intro conjI)
qed

theorem frame_range_negative_start_counterexample:
  "index_ok demo_source
   \<and> GetFrameRangeBySamples demo_source (- 1) 2
       = Inr \<lparr>First = 0, Last = 0, FirstSamplePos = 0\<rparr>
   \<and> \<not> (FirstSamplePos \<lparr>First = 0, Last = 0, FirstSamplePos = 0\<rparr> \<le> (- 1 :: int))"
  using demo_index_ok
  by (simp add: GetFrameRangeBySamples_def demo_source_def demo_media_def pcm_frame_def Let_def
                  wrap64_def)

lemma length_le_bytes [simp]: "length (le_bytes n v) = n"
  by (simp add: le_bytes_def)

lemma le_bytes_Suc: "le_bytes (Suc n) v = word_of_int v # le_bytes n (v div 256)"
proof -
  have "map (\<lambda>k. (word_of_int (v div 2 ^ (8 * k)) :: byte)) [0..<Suc n]
        = word_of_int (v div 2 ^ (8 * 0)) # map (\<lambda>k. word_of_int (v div 2 ^ (8 * Suc k))) [0..<n]"
    by (simp only: upt_conv_Cons[of 0 "Suc n"] list.map map_Suc_upt[symmetric] map_map o_def)
  moreover have "\<And>k. v div 2 ^ (8 * Suc k) = (v div 256) div 2 ^ (8 * k)"
  proof -
    fix k
    have "(2::int) ^ (8 * Suc k) = 256 * 2 ^ (8 * k)" by (simp add: power_add)
    then show "v div 2 ^ (8 * Suc k) = (v div 256) div 2 ^ (8 * k)"
      by (simp only: zdiv_zmult2_eq[of "2 ^ (8 * k)" v 256, OF zero_le_power[of 2 "8 * k"], symmetric])
  qed
  ultimately show ?thesis by (simp add: le_bytes_def)
qed

lemma le_value_le_bytes: "le_value (le_bytes n v) = v mod 2 ^ (8 * n)"
proof (induction n arbitrary: v)
  case 0
  then show ?case by (simp add: le_bytes_def)
next
  case (Suc n)
  have "uint (word_of_int v :: byte) = v mod 256"
    by (simp add: uint_word_of_int)
  moreover have "v mod (256 * 2 ^ (8 * n)) = 256 * (v div 256 mod 2 ^ (8 * n)) + v mod 256"
    by (rule zmod_zmult2_eq) simp
  ultimately show ?case
    by (simp add: le_bytes_Suc Suc.IH power_add)
qed

lemma le_signed_le_bytes_4: "int32 v \<Longrightarrow> le_signed (le_bytes 4 v) = v"
proof -
  assume r: "int32 v"
  have u: "le_value (le_bytes 4 v) = v mod 4294967296"
    by (simp add: le_value_le_bytes)
  show ?thesis
  proof (cases "0 \<le> v")
    case True
    with r have "v mod 4294967296 = v" by (simp add: int32_def)
    with u r True show ?thesis by (simp add: le_signed_def int32_def)
  next
    case False
    have "(v + 4294967296) mod 4294967296 = v + 4294967296"
      using r False by (intro mod_pos_pos_trivial) (simp_all add: int32_def)
    then have "v mod 4294967296 = v + 4294967296" by simp
    with u r False show ?thesis by (simp add: le_signed_def int32_def)
  qed
qed

lemma le_signed_le_bytes_8: "int64 v \<Longrightarrow> le_signed (le_bytes 8 v) = v"
proof -
  assume r: "int64 v"
  have u: "le_value (le_bytes 8 v) = v mod 18446744073709551616"
    by (simp add: le_value_le_bytes)
  show ?thesis
  proof (cases "0 \<le> v")
    case True
    with r have "v mod 18446744073709551616 = v" by (simp add: int64_def)
    with u r True show ?thesis by (simp add: le_signed_def int64_def)
  next
    case False
    have "(v + 18446744073709551616) mod 18446744073709551616 = v + 18446744073709551616"
      using r False by (intro mod_pos_pos_trivial) (simp_all add: int64_def)
    then have "v mod 18446744073709551616 = v + 18446744073709551616" by simp
    with u r False show ?thesis by (simp add: le_signed_def int64_def)
  qed
qed

lemma ReadInt_WriteInt: "int32 v \<Longrightarrow> ReadInt (WriteInt v @ r) = Some (v, r)"
  by (simp add: ReadInt_def WriteInt_def le_signed_le_bytes_4)

lemma ReadInt64_WriteInt64: "int64 v \<Longrightarrow> ReadInt64 (WriteInt64 v @ r) = Some (v, r)"
  by (simp add: ReadInt64_def WriteInt64_def le_signed_le_bytes_8)

lemma ReadCompareInt_WriteInt:
  "int32 v \<Longrightarrow> ReadCompareInt (WriteInt v @ r) w = Some (w = v, r)"
  by (simp add: ReadCompareInt_def ReadInt_WriteInt)

lemma ReadString_WriteString:
  "int32 (int (length str)) \<Longrightarrow> ReadString (WriteString str @ r) = Some (str, r)"
  by (simp add: ReadString_def WriteString_def ReadInt_WriteInt)

lemma ReadBSHeader_hdr: "ReadBSHeader hdr (hdr @ r) = Some r"
  by (simp add: ReadBSHeader_def)

lemma map_set_append:
  "\<forall>k0 \<in> set (map fst m). k0 < k \<Longrightarrow> map_set m k v = m @ [(k, v)]"
  by (induction m) (auto simp: not_less_iff_gr_or_eq)

lemma read_options_roundtrip:
  "sorted_wrt (<) (map fst (acc @ m)) \<Longrightarrow>
   list_all (\<lambda>(k, v). int32 (int (length k)) \<and> int32 (int (length v))) m \<Longrightarrow>
   read_options (length m) (concat (map (\<lambda>(k, v). WriteString k @ WriteString v) m) @ r) acc
     = Some (acc @ m, r)"
proof (induction m arbitrary: acc)
  case Nil
  then show ?case by simp
next
  case (Cons kv m)
  obtain k v where kv: "kv = (k, v)" by (cases kv)
  from Cons.prems(1) have lt: "\<forall>k0 \<in> set (map fst acc). k0 < k"
    by (auto simp: kv sorted_wrt_append)
  from Cons.prems(1) have srt: "sorted_wrt (<) (map fst ((acc @ [(k, v)]) @ m))"
    by (simp add: kv)
  from Cons.prems(2) have sz: "int32 (int (length k))" "int32 (int (length v))"
    and rest: "list_all (\<lambda>(k, v). int32 (int (length k)) \<and> int32 (int (length v))) m"
    by (simp_all add: kv)
  from Cons.IH[OF srt rest] sz show ?case
    by (simp add: kv ReadString_WriteString map_set_append[OF lt])
qed

lemma int64_wrap64: "int64 (wrap64 x)"
  by (simp add: wrap64_def int64_def)

lemma wrap64_int64: "int64 x \<Longrightarrow> wrap64 x = x"
  by (simp add: wrap64_def int64_def)

lemma wrap64_add_left: "wrap64 (wrap64 a + b) = wrap64 (a + b)"
proof -
  have "(wrap64 a + b + 2 ^ 63) mod 2 ^ 64 = ((a + 2 ^ 63) mod 2 ^ 64 + b) mod 2 ^ 64"
    by (simp add: wrap64_def algebra_simps)
  also have "\<dots> = (a + 2 ^ 63 + b) mod 2 ^ 64"
    by (rule mod_add_left_eq)
  finally show ?thesis by (simp add: wrap64_def algebra_simps)
qed

lemma read_frames_roundtrip:
  "int64 ns \<Longrightarrow> list_all frame_info_ok fs \<Longrightarrow> starts_from ns fs \<Longrightarrow>
   read_frames (length fs)
     (concat (map (\<lambda>f. Hash f @ WriteInt64 (PTS f) @ WriteInt64 (Length f)) fs) @ r) acc ns
     = Inr (True, acc @ fs, wrap64 (ns + sum_list (map Length fs)))"
proof (induction fs arbitrary: acc ns)
  case Nil
  then show ?case by (simp add: wrap64_int64)
next
  case (Cons f fs)
  from Cons.prems have okf: "frame_info_ok f"
    and rest: "list_all frame_info_ok fs" and st: "Start f = ns"
    and sf: "starts_from (wrap64 (ns + Length f)) fs"
    by simp_all
  from okf have ok: "length (Hash f) = 16" "int64 (PTS f)" "int64 (Length f)"
    by (simp_all add: frame_info_ok_def)
  have rec: "\<lparr>PTS = PTS f, Start = ns, Length = Length f, Hash = Hash f\<rparr> = f"
    using st by simp
  from Cons.IH[OF int64_wrap64 rest sf, of "acc @ [f]"] ok show ?case
    by (simp add: ReadInt64_WriteInt64 rec wrap64_add_left add.assoc)
qed

lemma int32_int64: "int32 v \<Longrightarrow> int64 v"
  by (simp add: int32_def int64_def)

lemma index_roundtrip:
  assumes w: "writable_index s" and sf: "starts_from 0 (Frames s)"
    and tr: "AudioTrack s' = AudioTrack s" and vf: "VariableFormat s' = VariableFormat s"
    and op: "LAVFOptions s' = LAVFOptions s"
    and fl: "contents fs (p, AudioTrack s) = Some (index_bytes hdr s)"
  shows "ReadAudioTrackIndex hdr s' p fs
           = Inr (True, s'\<lparr>Frames := Frames s' @ Frames s,
                             NumSamples := wrap64 (sum_list (map Length (Frames s)))\<rparr>)"
proof -
  from w have t32: "int32 (AudioTrack s)" and oo: "options_ok (LAVFOptions s)"
    and n32: "int32 (int (length (Frames s)))" and fo: "list_all frame_info_ok (Frames s)"
    by (simp_all add: writable_index_def)
  from oo have srt: "sorted_wrt (<) (map fst ([] @ LAVFOptions s))"
    and c32: "int32 (int (length (LAVFOptions s)))"
    and sz: "list_all (\<lambda>(k, v). int32 (int (length k)) \<and> int32 (int (length v))) (LAVFOptions s)"
    by (simp_all add: options_ok_def)
  define vfi :: int where "vfi = (if VariableFormat s then 1 else 0)"
  have v32: "int32 vfi" by (simp add: int32_def vfi_def)
  from n32 have n: "\<not> (int (length (Frames s)) < 0 \<or> int (length (Frames s)) > 2147483647)"
    by (simp add: int32_def)
  note ro = read_options_roundtrip[OF srt sz]
  have z: "int64 0" by (simp add: int64_def)
  note rf = read_frames_roundtrip[OF z fo sf, where r = "[]", simplified]
  have bytes: "index_bytes hdr s =
      hdr @ WriteInt (AudioTrack s) @ WriteInt vfi @ WriteInt (int (length (LAVFOptions s)))
        @ concat (map (\<lambda>(k, v). WriteString k @ WriteString v) (LAVFOptions s))
        @ WriteInt64 (int (length (Frames s)))
        @ concat (map (\<lambda>f. Hash f @ WriteInt64 (PTS f) @ WriteInt64 (Length f)) (Frames s))"
    by (simp add: index_bytes_def vfi_def)
  have rd: "ReadAudioTrackIndex hdr s' p fs =
     (case ReadBSHeader hdr (index_bytes hdr s) of
          None \<Rightarrow> Inr (False, s')
        | Some f1 \<Rightarrow>
        case ReadCompareInt f1 (AudioTrack s) of
          None \<Rightarrow> Inl ShortRead
        | Some (ok1, f2) \<Rightarrow>
        if \<not> ok1 then Inr (False, s')
        else
        case ReadCompareInt f2 vfi of
          None \<Rightarrow> Inl ShortRead
        | Some (ok2, f3) \<Rightarrow>
        if \<not> ok2 then Inr (False, s')
        else
        case ReadInt f3 of
          None \<Rightarrow> Inl ShortRead
        | Some (LAVFOptCount, f4) \<Rightarrow>
        case read_options (nat LAVFOptCount) f4 [] of
          None \<Rightarrow> Inl ShortRead
        | Some (IndexLAVFOptions, f5) \<Rightarrow>
        if LAVFOptions s \<noteq> IndexLAVFOptions then Inr (False, s')
        else
        case ReadInt64 f5 of
          None \<Rightarrow> Inl ShortRead
        | Some (n, f6) \<Rightarrow>
        if n < 0 \<or> n > 2147483647 then Inl LengthError
        else
        case read_frames (nat n) f6 (Frames s') 0 of
          Inl e \<Rightarrow> Inl e
        | Inr (ok, fr, ns) \<Rightarrow> Inr (ok, s'\<lparr>Frames := fr, NumSamples := ns\<rparr>))"
    unfolding ReadAudioTrackIndex_def vfi_def by (simp only: tr vf op fl option.case)
  show ?thesis
    unfolding rd bytes
    using n
    by (simp add: ReadBSHeader_hdr ReadCompareInt_WriteInt[OF t32]
                  ReadCompareInt_WriteInt[OF v32] ReadInt_WriteInt[OF c32] ro
                  ReadInt64_WriteInt64[OF int32_int64[OF n32]] rf)
qed

lemma length_av_md5 [simp]: "length (av_md5 m) = 16"
  by (simp add: av_md5_def bytes_le_def Let_def split: prod.splits)

lemma length_GetHash [simp]: "length (GetHash F) = 16"
  by (simp add: GetHash_def)

lemma index_frames_props:
  "length (index_frames fr a) = length fr \<and> starts_from a (index_frames fr a)
   \<and> (list_all (\<lambda>F. int64 (pts F) \<and> int32 (int (nb_samples F))) fr
        \<longrightarrow> list_all frame_info_ok (index_frames fr a))"
  by (induction fr arbitrary: a) (auto simp: frame_info_ok_def int32_int64)

lemma WriteAudioTrackIndex_file:
  "can_write fs (p, AudioTrack s) \<Longrightarrow>
     fst (WriteAudioTrackIndex hdr s p fs)
     \<and> contents (snd (WriteAudioTrackIndex hdr s p fs)) (p, AudioTrack s)
         = Some (index_bytes hdr s)"
  by (simp add: WriteAudioTrackIndex_def)

text \<open>
  C9. Let the index of \<open>s\<close> be the one \<^verbatim>\<open>IndexTrack\<close> builds from the decoded frames
  \<open>fr\<close> (timestamps in the range of \<^verbatim>\<open>int64_t\<close>, sample counts and the number of frames
  in the range of \<^verbatim>\<open>int\<close>), written by \<^verbatim>\<open>WriteAudioTrackIndex\<close> to a file that can be
  created. A source \<open>s'\<close> with the same track, \<^verbatim>\<open>VariableFormat\<close> and demuxer options and an
  empty index that then runs \<^verbatim>\<open>ReadAudioTrackIndex\<close> on the same cache path gets true and
  an index equal to the built one, entry for entry (\<open>PTS\<close>, \<open>Length\<close>, \<open>Hash\<close> and the
  \<open>Start\<close> that the load recomputes as the running sum), with \<^verbatim>\<open>AP.NumSamples\<close> the sum of
  the lengths as an \<^verbatim>\<open>int64_t\<close>.
\<close>

theorem index_store_load_roundtrip:
  assumes "Frames s = index_frames fr 0" and "fr \<noteq> []"
    and "list_all (\<lambda>F. int64 (pts F) \<and> int32 (int (nb_samples F))) fr"
    and "int32 (int (length fr))" and "int32 (AudioTrack s)" and "options_ok (LAVFOptions s)"
    and "can_write fs (p, AudioTrack s)"
    and "AudioTrack s' = AudioTrack s" and "VariableFormat s' = VariableFormat s"
    and "LAVFOptions s' = LAVFOptions s" and "Frames s' = []"
  shows "fst (WriteAudioTrackIndex hdr s p fs)
         \<and> ReadAudioTrackIndex hdr s' p (snd (WriteAudioTrackIndex hdr s p fs))
             = Inr (True, s'\<lparr>Frames := Frames s,
                               NumSamples := wrap64 (sum_list (map Length (Frames s)))\<rparr>)
         \<and> length (Frames s) = length fr"
proof -
  note ip = index_frames_props[of fr 0]
  from ip assms(1,3) have fo: "list_all frame_info_ok (Frames s)" by simp
  from ip assms(1) have sf: "starts_from 0 (Frames s)" and len: "length (Frames s) = length fr"
    by simp_all
  have w: "writable_index s"
    using fo len assms(4,5,6) by (simp add: writable_index_def)
  note wr = WriteAudioTrackIndex_file[OF assms(7), of hdr]
  from wr have fl: "contents (snd (WriteAudioTrackIndex hdr s p fs)) (p, AudioTrack s)
                      = Some (index_bytes hdr s)" by (rule conjunct2)
  from index_roundtrip[OF w sf assms(8,9,10) fl] assms(11)
  have "ReadAudioTrackIndex hdr s' p (snd (WriteAudioTrackIndex hdr s p fs))
             = Inr (True, s'\<lparr>Frames := Frames s,
                               NumSamples := wrap64 (sum_list (map Length (Frames s)))\<rparr>)" by simp
  with wr len show ?thesis by (intro conjI) simp_all
qed

theorem index_store_load_roundtrip_witness:
  "Frames demo_source = index_frames (linear_decode demo_media) 0
   \<and> linear_decode demo_media \<noteq> []
   \<and> ReadAudioTrackIndex demo_hdr (demo_source\<lparr>Frames := []\<rparr>) ''a''
        (snd (WriteAudioTrackIndex demo_hdr demo_source ''a'' empty_fs))
       = Inr (True, demo_source)"
proof -
  have a: "Frames demo_source = index_frames (linear_decode demo_media) 0"
    by (simp add: demo_source_def)
  have b: "linear_decode demo_media \<noteq> []" by (simp add: demo_media_def)
  have c: "list_all (\<lambda>F. int64 (pts F) \<and> int32 (int (nb_samples F))) (linear_decode demo_media)"
    by (simp add: demo_media_def pcm_frame_def int64_def int32_def)
  have d: "int32 (int (length (linear_decode demo_media)))"
    by (simp add: demo_media_def int32_def)
  have e: "int32 (AudioTrack demo_source)" "options_ok (LAVFOptions demo_source)"
    "can_write empty_fs (''a'', AudioTrack demo_source)"
    by (simp_all add: demo_source_def int32_def options_ok_def empty_fs_def)
  have f: "AudioTrack (demo_source\<lparr>Frames := []\<rparr>) = AudioTrack demo_source"
    "VariableFormat (demo_source\<lparr>Frames := []\<rparr>) = VariableFormat demo_source"
    "LAVFOptions (demo_source\<lparr>Frames := []\<rparr>) = LAVFOptions demo_source"
    "Frames (demo_source\<lparr>Frames := []\<rparr>) = []"
    by simp_all
  have g: "demo_source\<lparr>Frames := [], Frames := Frames demo_source,
                        NumSamples := wrap64 (sum_list (map Length (Frames demo_source)))\<rparr>
          = demo_source"
    by (simp add: demo_source_def demo_media_def pcm_frame_def wrap64_def)
  from index_store_load_roundtrip[OF a b c d e f, of demo_hdr] g
  have "ReadAudioTrackIndex demo_hdr (demo_source\<lparr>Frames := []\<rparr>) ''a''
        (snd (WriteAudioTrackIndex demo_hdr demo_source ''a'' empty_fs))
       = Inr (True, demo_source)" by simp
  with a b show ?thesis by (intro conjI)
qed

lemma replicate_unfold: "replicate n x = (if n = 0 then [] else x # replicate (n - 1) x)"
  by (cases n) auto

lemma md5_blocks_unfold:
  "md5_blocks n st ws =
     (if n = 0 then st else md5_blocks (n - 1) (md5_block st (take 16 ws)) (drop 16 ws))"
  by (cases n) auto

lemmas md5_eval = av_md5_def md5_pad_def bytes_le_def le32_def md5_block_def md5_step_def
  md5_K_def md5_S_def rotl32_def Let_def replicate_unfold md5_blocks_unfold upt_rec

lemma md5_1234:
  "av_md5 [1, 2, 3, 4] = [8, 214, 192, 90, 33, 81, 42, 121, 161, 223, 235, 157, 42, 143, 38, 47]"
  by (simp add: md5_eval)

lemma md5_1324:
  "av_md5 [1, 3, 2, 4]
     = [231, 143, 61, 227, 170, 225, 64, 7, 102, 67, 229, 214, 248, 228, 196, 185]"
  by (simp add: md5_eval)

lemma md5_distinct: "av_md5 [1, 2, 3, 4] \<noteq> av_md5 [1, 3, 2, 4]"
  by (simp add: md5_1234 md5_1324)

lemma take_chunks_eq:
  "(\<And>i. i < n \<Longrightarrow> take b (drop (i * b) p) = take b (drop (i * b) q))
     \<Longrightarrow> take (b * n) p = take (b * n) q"
proof (induction n)
  case 0
  then show ?case by simp
next
  case (Suc n)
  have "take (b * Suc n) p = take (b * n) p @ take b (drop (b * n) p)"
    by (metis take_add mult_Suc_right add.commute)
  also have "take (b * n) p = take (b * n) q" using Suc by simp
  also have "take b (drop (b * n) p) = take b (drop (b * n) q)"
    using Suc.prems[of n] by (simp add: mult.commute)
  also have "take (b * n) q @ take b (drop (b * n) q) = take (b * Suc n) q"
    by (metis take_add mult_Suc_right add.commute)
  finally show ?case .
qed

lemma hash_input_mono:
  assumes "same_pcm F G" and "is_planar F" and "\<not> is_planar G" and "nb_channels F = 1"
  shows "hash_input F = hash_input G"
proof -
  from assms(1) have b: "bytes_per_sample G = bytes_per_sample F"
    and c: "nb_channels G = nb_channels F" and n: "nb_samples G = nb_samples F"
    and sm: "list_all (\<lambda>c. list_all (\<lambda>i. pcm_sample F c i = pcm_sample G c i)
                                [0..<nb_samples F]) [0..<nb_channels F]"
    by (auto simp: same_pcm_def)
  from sm assms(4) have "\<And>i. i < nb_samples F \<Longrightarrow> pcm_sample F 0 i = pcm_sample G 0 i"
    by (simp add: list_all_iff)
  then have "\<And>i. i < nb_samples F \<Longrightarrow>
      take (bytes_per_sample F) (drop (i * bytes_per_sample F) (extended_data F ! 0))
      = take (bytes_per_sample F) (drop (i * bytes_per_sample F) (extended_data G ! 0))"
    using assms(2,3,4) b c by (simp add: pcm_sample_def)
  then have "take (bytes_per_sample F * nb_samples F) (extended_data F ! 0)
           = take (bytes_per_sample F * nb_samples F) (extended_data G ! 0)"
    by (rule take_chunks_eq)
  then show ?thesis using assms(2,3,4) b c n by (simp add: hash_input_def)
qed

text \<open>
  C3 (amended). The hash of a frame is the 16-byte MD5 digest of its payload bytes in the
  order of its layout, so hashing the same frame twice gives the same bytes, and two frames
  with the same payload bytes in that order have the same hash. A planar and a packed frame
  that carry the same PCM have the same hash when there is one channel: then the plane and
  the interleaved region are the same bytes.
\<close>

theorem hash_is_md5_of_layout_bytes:
  "GetHash F = av_md5 (hash_input F) \<and> length (GetHash F) = 16
   \<and> (hash_input F = hash_input G \<longrightarrow> GetHash F = GetHash G)
   \<and> (same_pcm F G \<and> is_planar F \<and> \<not> is_planar G \<and> nb_channels F = 1
        \<longrightarrow> GetHash F = GetHash G)"
proof (intro conjI impI)
  show "GetHash F = av_md5 (hash_input F)" by (simp add: GetHash_def)
  show "length (GetHash F) = 16" by simp
next
  assume "hash_input F = hash_input G"
  then show "GetHash F = GetHash G" by (simp add: GetHash_def)
next
  assume "same_pcm F G \<and> is_planar F \<and> \<not> is_planar G \<and> nb_channels F = 1"
  then have "hash_input F = hash_input G" using hash_input_mono by blast
  then show "GetHash F = GetHash G" by (simp add: GetHash_def)
qed

theorem hash_is_md5_of_layout_bytes_witness:
  "same_pcm (pcm_frame True 1 4 [[1, 2, 3, 4]]) (pcm_frame False 1 4 [[1, 2, 3, 4]])
   \<and> is_planar (pcm_frame True 1 4 [[1, 2, 3, 4]])
   \<and> \<not> is_planar (pcm_frame False 1 4 [[1, 2, 3, 4]])
   \<and> nb_channels (pcm_frame True 1 4 [[1, 2, 3, 4]]) = 1
   \<and> hash_input (pcm_frame True 1 4 [[1, 2, 3, 4]])
       = hash_input (pcm_frame False 1 4 [[1, 2, 3, 4]])
   \<and> GetHash (pcm_frame True 1 4 [[1, 2, 3, 4]]) = GetHash (pcm_frame False 1 4 [[1, 2, 3, 4]])
   \<and> length (GetHash (pcm_frame True 1 4 [[1, 2, 3, 4]])) = 16"
proof -
  have h: "same_pcm (pcm_frame True 1 4 [[1, 2, 3, 4]]) (pcm_frame False 1 4 [[1, 2, 3, 4]])"
    "is_planar (pcm_frame True 1 4 [[1, 2, 3, 4]])"
    "\<not> is_planar (pcm_frame False 1 4 [[1, 2, 3, 4]])"
    "nb_channels (pcm_frame True 1 4 [[1, 2, 3, 4]]) = 1"
    by (simp_all add: same_pcm_def pcm_sample_def pcm_frame_def upt_rec)
  have i: "hash_input (pcm_frame True 1 4 [[1, 2, 3, 4]])
             = hash_input (pcm_frame False 1 4 [[1, 2, 3, 4]])"
    by (simp add: hash_input_def pcm_frame_def)
  note th = hash_is_md5_of_layout_bytes[of "pcm_frame True 1 4 [[1, 2, 3, 4]]"
                                           "pcm_frame False 1 4 [[1, 2, 3, 4]]"]
  from th h have e: "GetHash (pcm_frame True 1 4 [[1, 2, 3, 4]])
                       = GetHash (pcm_frame False 1 4 [[1, 2, 3, 4]])" by blast
  from th have l: "length (GetHash (pcm_frame True 1 4 [[1, 2, 3, 4]])) = 16" by blast
  from h i e l show ?thesis by (intro conjI)
qed

theorem planar_packed_hash_differs_counterexample:
  "same_pcm planar_stereo packed_stereo
   \<and> is_planar planar_stereo \<and> \<not> is_planar packed_stereo
   \<and> nb_channels planar_stereo = nb_channels packed_stereo
   \<and> GetHash planar_stereo \<noteq> GetHash packed_stereo"
proof -
  have a: "same_pcm planar_stereo packed_stereo"
    by (simp add: same_pcm_def pcm_sample_def planar_stereo_def packed_stereo_def pcm_frame_def
                  upt_rec)
  have b: "hash_input planar_stereo = [1, 2, 3, 4]" "hash_input packed_stereo = [1, 3, 2, 4]"
    by (simp_all add: hash_input_def planar_stereo_def packed_stereo_def pcm_frame_def upt_rec)
  have c: "GetHash planar_stereo \<noteq> GetHash packed_stereo"
    using md5_distinct by (simp add: GetHash_def b)
  from a c show ?thesis
    by (simp add: planar_stereo_def packed_stereo_def pcm_frame_def)
qed

lemma demo_writable: "writable_index demo_source"
  by (simp add: writable_index_def frame_info_ok_def demo_source_def demo_media_def pcm_frame_def
                int32_def int64_def options_ok_def)

lemma demo_starts: "starts_from 0 (Frames demo_source)"
  using index_frames_props[of "linear_decode demo_media" 0] by (simp add: demo_source_def)

lemma demo_frames_differ:
  "Frames demo_source \<noteq> index_frames (linear_decode demo_media_drc) 0"
  using md5_distinct
  by (simp add: demo_source_def demo_media_def demo_media_drc_def pcm_frame_def GetHash_def
                hash_input_def upt_rec)

lemma demo_fs_read:
  assumes "AudioTrack s' = 0" and "\<not> VariableFormat s'" and "LAVFOptions s' = []"
  shows "ReadAudioTrackIndex demo_hdr s' ''a'' demo_fs
           = Inr (True, s'\<lparr>Frames := Frames s' @ Frames demo_source, NumSamples := 4\<rparr>)"
proof -
  have fl: "contents demo_fs (''a'', AudioTrack demo_source)
              = Some (index_bytes demo_hdr demo_source)"
    by (simp add: demo_fs_def demo_source_def)
  have n: "wrap64 (sum_list (map Length (Frames demo_source))) = 4"
    by (simp add: demo_source_def demo_media_def pcm_frame_def wrap64_def)
  have "ReadAudioTrackIndex demo_hdr s' ''a'' demo_fs
          = Inr (True, s'\<lparr>Frames := Frames s' @ Frames demo_source,
                            NumSamples := wrap64 (sum_list (map Length (Frames demo_source)))\<rparr>)"
    by (rule index_roundtrip[OF demo_writable demo_starts _ _ _ fl])
       (simp_all add: assms demo_source_def)
  then show ?thesis by (simp only: n)
qed

text \<open>
  C6. What the code does with an index written under another \<^verbatim>\<open>DrcScale\<close>: the source
  opened with \<open>DrcScale = 0\<close> on an empty cache builds its index and writes it; a source
  opened with \<open>DrcScale = 1\<close> and otherwise the same parameters then finds that file,
  \<^verbatim>\<open>ReadAudioTrackIndex\<close> returns true, and the constructor keeps the stored index and
  leaves the file as it is, although the frames its decoder delivers have other hashes
  than the stored ones. The index is not discarded and not rebuilt.
\<close>

theorem index_of_other_drc_scale_is_loaded:
  "new_BestAudioSource demo_hdr 0 100 demo_media ''a'' 0 False [] [] 0 empty_fs
     = Inr (demo_source, demo_fs)
   \<and> ReadAudioTrackIndex demo_hdr
        (demo_source\<lparr>Source := demo_media_drc, DrcScale := 1, Frames := [], NumFrames := 0,
                      NumSamples := 0, Decoders := [None, None, None]\<rparr>) ''a'' demo_fs
     = Inr (True, demo_source\<lparr>Source := demo_media_drc, DrcScale := 1, NumFrames := 0,
                                Decoders := [None, None, None]\<rparr>)
   \<and> new_BestAudioSource demo_hdr 0 100 demo_media_drc ''a'' 0 False [] [] 1 demo_fs
     = Inr (demo_source\<lparr>Source := demo_media_drc, DrcScale := 1\<rparr>, demo_fs)
   \<and> Frames (demo_source\<lparr>Source := demo_media_drc, DrcScale := 1\<rparr>)
       \<noteq> index_frames (linear_decode demo_media_drc) 0"
proof -
  have one: "new_BestAudioSource demo_hdr 0 100 demo_media ''a'' 0 False [] [] 0 empty_fs
               = Inr (demo_source, demo_fs)"
    by (simp add: new_BestAudioSource_def ReadAudioTrackIndex_def IndexTrack_def
                  WriteAudioTrackIndex_def GetNextFrame_def new_LWAudioDecoder_def Let_def
                  MaxVideoSources_def numeral_3_eq_3 wrap64_def demo_fs_def
                  demo_source_def demo_media_def pcm_frame_def empty_fs_def index_bytes_def)
  have two: "ReadAudioTrackIndex demo_hdr
        (demo_source\<lparr>Source := demo_media_drc, DrcScale := 1, Frames := [], NumFrames := 0,
                      NumSamples := 0, Decoders := [None, None, None]\<rparr>) ''a'' demo_fs
     = Inr (True, demo_source\<lparr>Source := demo_media_drc, DrcScale := 1, NumFrames := 0,
                                Decoders := [None, None, None]\<rparr>)"
    by (simp add: demo_fs_read demo_source_def)
  have three: "new_BestAudioSource demo_hdr 0 100 demo_media_drc ''a'' 0 False [] [] 1 demo_fs
     = Inr (demo_source\<lparr>Source := demo_media_drc, DrcScale := 1\<rparr>, demo_fs)"
    by (simp add: new_BestAudioSource_def demo_fs_read GetNextFrame_def new_LWAudioDecoder_def
                  Let_def MaxVideoSources_def numeral_3_eq_3 wrap64_def
                  demo_source_def demo_media_def demo_media_drc_def pcm_frame_def)
  from one two three demo_frames_differ show ?thesis by simp
qed

lemmas slice_eval = GetPlanarAudio_def ZeroFillStart_def ZeroFillEnd_def
  GetFrameRangeBySamples_def FillInFramePlanar_def memset_chan_def memset0_def memcpy_chan_def
  memcpy_def advance_chan_def GetSeekFrame_def GetSeekFrame_loop.simps

lemma GetFrame_demo:
  "GetFrame 3 demo_source 0 False
     = Inr (Some (pcm_frame True 1 4 [[1, 2, 3, 4]]),
            demo_source\<lparr>
              FrameCache := \<lparr>Data = [new_CacheBlock 0 (pcm_frame True 1 4 [[1, 2, 3, 4]])],
                              Size = 4, MaxSize = 100\<rparr>,
              Decoders := [Some \<lparr>pending = [], CurrentFrame = 1, CurrentSample = 4,
                                  Seeked = False, DecodeSuccess = True\<rparr>, None,
                           Some \<lparr>pending = [], CurrentFrame = 1, CurrentSample = 4,
                                  Seeked = False, DecodeSuccess = True\<rparr>],
              DecoderSequenceNum := 1\<rparr>)"
  by (simp add: engine_eval slice_eval demo_source_def demo_media_def pcm_frame_def
           cong: weak_congs)

text \<open>
  C1. What the code does with a request that runs past the end of the track: on the source
  of four one-byte samples \<open>1, 2, 3, 4\<close>, \<^verbatim>\<open>GetPlanarAudio\<close> for \<open>Start = 2\<close> and
  \<open>Count = 4\<close> into a buffer that holds \<open>9, 9, 9, 9\<close> leaves \<open>3, 4, 9, 9\<close>.
  \<^verbatim>\<open>ZeroFillEnd\<close> computes the offset of the tail as
  \<^verbatim>\<open>std::min<int64_t>(AP.NumSamples - Start, 0) * AP.BytesPerSample\<close>, which is 0 and not
  \<open>(4 - 2) * 1\<close>: it zeroes the first two bytes, which the decoded samples then overwrite,
  and the two bytes from offset 2 on, which stand for the samples 4 and 5 beyond the end,
  keep what the caller's buffer held.
\<close>

theorem tail_of_output_is_not_zeroed:
  "NumSamples demo_source = 4 \<and> BytesPerSample demo_source = 1
   \<and> ZeroFillEnd demo_source \<lparr>bufs = [[9, 9, 9, 9]], DataV = [0], pos = 2, cnt = 4\<rparr>
       = Inr \<lparr>bufs = [[0, 0, 9, 9]], DataV = [0], pos = 2, cnt = 2\<rparr>
   \<and> GetPlanarAudio 3 demo_source [[9, 9, 9, 9]] 2 4
       = Inr ([[3, 4, 9, 9]],
              demo_source\<lparr>
                FrameCache := \<lparr>Data = [new_CacheBlock 0 (pcm_frame True 1 4 [[1, 2, 3, 4]])],
                                Size = 4, MaxSize = 100\<rparr>,
                Decoders := [Some \<lparr>pending = [], CurrentFrame = 1, CurrentSample = 4,
                                    Seeked = False, DecodeSuccess = True\<rparr>, None,
                             Some \<lparr>pending = [], CurrentFrame = 1, CurrentSample = 4,
                                    Seeked = False, DecodeSuccess = True\<rparr>],
                DecoderSequenceNum := 1\<rparr>)"
proof -
  have a: "NumSamples demo_source = 4" "BytesPerSample demo_source = 1"
    by (simp_all add: demo_source_def)
  have z: "ZeroFillEnd demo_source \<lparr>bufs = [[9, 9, 9, 9]], DataV = [0], pos = 2, cnt = 4\<rparr>
             = Inr \<lparr>bufs = [[0, 0, 9, 9]], DataV = [0], pos = 2, cnt = 2\<rparr>"
    by (simp add: slice_eval wrap64_def demo_source_def upt_rec numeral_2_eq_2)
  have r: "GetFrameRangeBySamples demo_source 2 2
             = Inr \<lparr>First = 0, Last = 0, FirstSamplePos = 0\<rparr>"
    by (simp add: slice_eval wrap64_def demo_source_def demo_media_def pcm_frame_def Let_def)
  define F where "F = pcm_frame True 1 4 [[1, 2, 3, 4]]"
  define s1 where "s1 = demo_source\<lparr>
                FrameCache := \<lparr>Data = [new_CacheBlock 0 (pcm_frame True 1 4 [[1, 2, 3, 4]])],
                                Size = 4, MaxSize = 100\<rparr>,
                Decoders := [Some \<lparr>pending = [], CurrentFrame = 1, CurrentSample = 4,
                                    Seeked = False, DecodeSuccess = True\<rparr>, None,
                             Some \<lparr>pending = [], CurrentFrame = 1, CurrentSample = 4,
                                    Seeked = False, DecodeSuccess = True\<rparr>],
                DecoderSequenceNum := 1\<rparr>"
  have gf: "GetFrame 3 demo_source 0 False = Inr (Some F, s1)"
    unfolding F_def s1_def by (rule GetFrame_demo)
  have f: "FillInFramePlanar s1 F 0 \<lparr>bufs = [[0, 0, 9, 9]], DataV = [0], pos = 2, cnt = 2\<rparr>
           = Inr \<lparr>bufs = [[3, 4, 9, 9]], DataV = [2], pos = 4, cnt = 0\<rparr>"
    by (simp add: slice_eval wrap64_def s1_def F_def demo_source_def pcm_frame_def upt_rec
                  Let_def numeral_2_eq_2)
  have c: "Channels demo_source = 1" by (simp add: demo_source_def)
  have zs: "ZeroFillStart demo_source \<lparr>bufs = [[9, 9, 9, 9]], DataV = [0], pos = 2, cnt = 4\<rparr>
              = Inr \<lparr>bufs = [[9, 9, 9, 9]], DataV = [0], pos = 2, cnt = 4\<rparr>"
    by (simp add: ZeroFillStart_def)
  have "GetPlanarAudio 3 demo_source [[9, 9, 9, 9]] 2 4 = Inr ([[3, 4, 9, 9]], s1)"
    unfolding GetPlanarAudio_def by (simp add: c zs z r gf f)
  then have g: "GetPlanarAudio 3 demo_source [[9, 9, 9, 9]] 2 4
       = Inr ([[3, 4, 9, 9]],
              demo_source\<lparr>
                FrameCache := \<lparr>Data = [new_CacheBlock 0 (pcm_frame True 1 4 [[1, 2, 3, 4]])],
                                Size = 4, MaxSize = 100\<rparr>,
                Decoders := [Some \<lparr>pending = [], CurrentFrame = 1, CurrentSample = 4,
                                    Seeked = False, DecodeSuccess = True\<rparr>, None,
                             Some \<lparr>pending = [], CurrentFrame = 1, CurrentSample = 4,
                                    Seeked = False, DecodeSuccess = True\<rparr>],
                DecoderSequenceNum := 1\<rparr>)"
    unfolding s1_def .
  from a z g show ?thesis by (intro conjI)
qed

lemma index_frames_maps:
  "map Hash (index_frames fr a) = map GetHash fr \<and> map PTS (index_frames fr a) = map pts fr
   \<and> map Length (index_frames fr a) = map (\<lambda>F. int (nb_samples F)) fr"
  by (induction fr arbitrary: a) auto

lemma index_frames_nth:
  assumes "i < length fr"
  shows "PTS (index_frames fr a ! i) = pts (fr ! i)"
    and "Hash (index_frames fr a ! i) = GetHash (fr ! i)"
proof -
  have l: "i < length (index_frames fr a)" using assms index_frames_props by simp
  have "PTS (index_frames fr a ! i) = map PTS (index_frames fr a) ! i" using l by simp
  also have "\<dots> = pts (fr ! i)" using assms by (simp add: index_frames_maps)
  finally show "PTS (index_frames fr a ! i) = pts (fr ! i)" .
  have "Hash (index_frames fr a ! i) = map Hash (index_frames fr a) ! i" using l by simp
  also have "\<dots> = GetHash (fr ! i)" using assms by (simp add: index_frames_maps)
  finally show "Hash (index_frames fr a ! i) = GetHash (fr ! i)" .
qed

lemma filter_unique_tail:
  assumes "hA \<noteq> hB"
  shows "filter (\<lambda>i. take 1 (drop i (replicate n hA @ [hB])) = [hB]) [0..<Suc n] = [n]"
proof -
  have "\<And>i. i < n \<Longrightarrow> take 1 (drop i (replicate n hA @ [hB])) = [hA]"
  proof -
    fix i assume "i < n"
    then obtain k where k: "n - i = Suc k" by (cases "n - i") auto
    with \<open>i < n\<close> show "take 1 (drop i (replicate n hA @ [hB])) = [hA]" by simp
  qed
  with assms have "filter (\<lambda>i. take 1 (drop i (replicate n hA @ [hB])) = [hB]) [0..<n] = []"
    by (auto simp: filter_empty_conv)
  then show ?thesis by simp
qed

lemma tail_hashes:
  "map Hash (Frames tail_source)
     = replicate 100 (GetHash (pcm_frame True 1 4 [[1, 2, 3, 4]]))
       @ [GetHash tail_frame]"
  by (simp add: tail_source_def tail_media_def index_frames_maps)

lemma tail_length: "length (Frames tail_source) = 101"
  using index_frames_props[of "linear_decode tail_media" 0]
  by (simp add: tail_source_def) (simp add: tail_media_def)

lemma tail_hash_distinct:
  "GetHash (pcm_frame True 1 4 [[1, 2, 3, 4]])
     \<noteq> GetHash tail_frame"
  using md5_distinct
  by (simp add: GetHash_def hash_input_def tail_frame_def pcm_frame_def upt_rec)

lemma tail_matches:
  "find_matches (Frames tail_source)
     [GetHash tail_frame] True = Inr [100]"
proof -
  have hm: "hash_match (Frames tail_source) [h] i
              = (take 1 (drop i (map Hash (Frames tail_source))) = [h])" for h i
    by (simp add: hash_match_def take_map drop_map)
  have "filter (hash_match (Frames tail_source)
                  [GetHash tail_frame])
               [0..<Suc 100] = [100]"
    unfolding hm tail_hashes by (rule filter_unique_tail[OF tail_hash_distinct])
  then show ?thesis by (simp add: find_matches_def tail_length)
qed

lemma tail_pts: "PTS (Frames tail_source ! 100) = 100"
proof -
  have "PTS (Frames tail_source ! 100) = pts (linear_decode tail_media ! 100)"
    unfolding tail_source_def by (simp add: index_frames_nth tail_media_def)
  also have "\<dots> = 100" by (simp add: tail_media_def nth_append tail_frame_def)
  finally show ?thesis .
qed

lemma tail_fields:
  "PreRoll tail_source = 0" "BadSeekLocations tail_source = {}" "\<not> LinearMode tail_source"
  "NumFrames tail_source = 101" "Source tail_source = tail_media"
  "Data (FrameCache tail_source) = []"
  "Decoders tail_source
     = [Some \<lparr>pending = tl (linear_decode tail_media), CurrentFrame = 1,
               CurrentSample = 4, Seeked = False, DecodeSuccess = True\<rparr>, None, None]"
  "DecoderLastUse tail_source = [0, 0, 0]" "DecoderSequenceNum tail_source = 0"
  by (simp_all add: tail_source_def)

lemma tail_seek_frame: "GetSeekFrame tail_source 100 = Inr 100"
  unfolding GetSeekFrame_def
  by (subst GetSeekFrame_loop.simps)
     (simp add: tail_fields tail_length tail_pts AV_NOPTS_VALUE_def wrap64_def)

lemma tail_no_nearby: "\<not> nearby_decoder tail_source 100 100"
  by (simp add: nearby_decoder_def MaxVideoSources_def upt3 tail_fields)

lemma tail_slot:
  "seek_decoder_slot tail_source
     = (tail_source\<lparr>Decoders :=
                       [Some \<lparr>pending = tl (linear_decode tail_media), CurrentFrame = 1,
                               CurrentSample = 4, Seeked = False, DecodeSuccess = True\<rparr>, None,
                        Some (new_LWAudioDecoder tail_media)],
                     DecoderLastUse := [0, 0, 0], DecoderSequenceNum := 1\<rparr>, 2)"
  by (simp add: seek_decoder_slot_def scan_slots_def MaxVideoSources_def upt3 tail_fields Let_def)

lemma tail_seek_start:
  "engine_step 100
     (CallSeek (tail_source\<lparr>Decoders :=
                       [Some \<lparr>pending = tl (linear_decode tail_media), CurrentFrame = 1,
                               CurrentSample = 4, Seeked = False, DecodeSuccess = True\<rparr>, None,
                        Some (new_LWAudioDecoder tail_media)],
                     DecoderLastUse := [0, 0, 0], DecoderSequenceNum := 1\<rparr>) 100 2 0)
     = Inr (LapSeek (tail_source\<lparr>Decoders :=
                       [Some \<lparr>pending = tl (linear_decode tail_media), CurrentFrame = 1,
                               CurrentSample = 4, Seeked = False, DecodeSuccess = True\<rparr>, None,
                        Some \<lparr>pending = [tail_frame],
                               CurrentFrame = INT64_MIN, CurrentSample = INT64_MIN,
                               Seeked = True, DecodeSuccess = True\<rparr>],
                     DecoderLastUse := [0, 0, 0], DecoderSequenceNum := 1\<rparr>) 100 2 0 [])"
proof -
  have sk: "seek_decode tail_media 100 = Some [tail_frame]"
    by (simp add: tail_media_def)
  show ?thesis
    by (simp add: engine_step_def SeekAndDecode_start_def tail_length tail_pts tail_fields Seek_def
                  sk SkipFrames_def new_LWAudioDecoder_def)
qed

lemma tail_seek_lap:
  "engine_step 100
     (LapSeek (tail_source\<lparr>Decoders :=
                       [Some \<lparr>pending = tl (linear_decode tail_media), CurrentFrame = 1,
                               CurrentSample = 4, Seeked = False, DecodeSuccess = True\<rparr>, None,
                        Some \<lparr>pending = [tail_frame],
                               CurrentFrame = INT64_MIN, CurrentSample = INT64_MIN,
                               Seeked = True, DecodeSuccess = True\<rparr>],
                     DecoderLastUse := [0, 0, 0], DecoderSequenceNum := 1\<rparr>) 100 2 0 [])
     = Inl OutOfBounds"
  by (simp add: engine_step_def SeekAndDecode_lap_def GetNextFrame_def tail_matches identified_def
                tail_length Let_def)

text \<open>
  C2. What the code does when the unique match is the last frame of the index: on a track
  of 101 frames, \<^verbatim>\<open>GetFrame(100)\<close> seeks to frame 100, the decoder delivers that frame, its
  hash matches the index at position 100 only, and \<^verbatim>\<open>SeekAndDecode\<close> reads
  \<^verbatim>\<open>TrackIndex.Frames[MatchedN + MatchFrames.size()]\<close>, entry 101 of a vector of 101
  entries. \<open>MatchedN + |M| < NumFrames\<close> does not hold there, and the read is outside the
  vector for every amount of fuel that reaches it.
\<close>

theorem unique_match_at_tail_reads_past_index:
  "map_sum id fst (new_BestAudioSource demo_hdr 0 100 tail_media ''a'' 0 False [] [] 0 empty_fs)
     = Inr tail_source
   \<and> NumFrames tail_source = 101 \<and> length (Frames tail_source) = 101
   \<and> find_matches (Frames tail_source)
        [GetHash tail_frame] True = Inr [100]
   \<and> GetFrame (fuel + 2) tail_source 100 False = Inl OutOfBounds"
proof -
  have hd: "linear_decode tail_media
              = pcm_frame True 1 4 [[1, 2, 3, 4]] # tl (linear_decode tail_media)"
    by (simp add: tail_media_def replicate_unfold)
  have lst: "last (index_frames (linear_decode tail_media) 0)
               = \<lparr>PTS = 100, Start = 400, Length = 4,
                    Hash = GetHash tail_frame\<rparr>"
    by (simp add: tail_media_def replicate_unfold wrap64_def pcm_frame_def)
       (simp add: tail_frame_def pcm_frame_def)
  have ne: "index_frames (linear_decode tail_media) 0 \<noteq> []"
    using tail_length by (auto simp: tail_source_def)
  have gn: "GetNextFrame (new_LWAudioDecoder tail_media)
              = (Some (pcm_frame True 1 4 [[1, 2, 3, 4]]),
                 \<lparr>pending = tl (linear_decode tail_media), CurrentFrame = 1, CurrentSample = 4,
                   Seeked = False, DecodeSuccess = True\<rparr>)"
    using hd
    by (cases "linear_decode tail_media")
       (simp_all add: GetNextFrame_def new_LWAudioDecoder_def wrap64_def pcm_frame_def)
  have one: "map_sum id fst
               (new_BestAudioSource demo_hdr 0 100 tail_media ''a'' 0 False [] [] 0 empty_fs)
             = Inr tail_source"
    unfolding new_BestAudioSource_def gn
    by (simp add: ReadAudioTrackIndex_def IndexTrack_def WriteAudioTrackIndex_def Let_def
                  MaxVideoSources_def numeral_3_eq_3 empty_fs_def pcm_frame_def ne lst
                  tail_length[unfolded tail_source_def, simplified] wrap64_def tail_source_def)
  define s1 where "s1 = tail_source\<lparr>Decoders :=
                       [Some \<lparr>pending = tl (linear_decode tail_media), CurrentFrame = 1,
                               CurrentSample = 4, Seeked = False, DecodeSuccess = True\<rparr>, None,
                        Some (new_LWAudioDecoder tail_media)],
                     DecoderLastUse := [0, 0, 0], DecoderSequenceNum := 1\<rparr>"
  define s2 where "s2 = tail_source\<lparr>Decoders :=
                       [Some \<lparr>pending = tl (linear_decode tail_media), CurrentFrame = 1,
                               CurrentSample = 4, Seeked = False, DecodeSuccess = True\<rparr>, None,
                        Some \<lparr>pending = [tail_frame],
                               CurrentFrame = INT64_MIN, CurrentSample = INT64_MIN,
                               Seeked = True, DecodeSuccess = True\<rparr>],
                     DecoderLastUse := [0, 0, 0], DecoderSequenceNum := 1\<rparr>"
  have sl: "seek_decoder_slot tail_source = (s1, 2)"
    unfolding s1_def by (rule tail_slot)
  have st1: "engine_step 100 (CallSeek s1 100 2 0) = Inr (LapSeek s2 100 2 0 [])"
    unfolding s1_def s2_def by (rule tail_seek_start)
  have st2: "engine_step 100 (LapSeek s2 100 2 0 []) = Inl OutOfBounds"
    unfolding s2_def by (rule tail_seek_lap)
  have two: "GetFrame (fuel + 2) tail_source 100 False = Inl OutOfBounds"
    by (simp add: GetFrame_def Cache_GetFrame_def tail_fields GetFrameInternal_def tail_seek_frame
                  tail_no_nearby sl SeekAndDecode_def st1 st2)
  from one tail_fields(4) tail_length tail_matches two show ?thesis by (intro conjI)
qed
















end
